theory Spec2Isabelle
  imports Complex_Main
begin

section \<open>JavaScript strings and numbers\<close>

text \<open>
  A JavaScript string is a sequence of UTF-16 code units; a code unit is modelled as a
  natural number. \<open>str\<close> embeds an ASCII literal. The non-ASCII literals of the source are
  written out as code-unit lists, with the code points named beside them.
  A JavaScript \<open>number\<close> holding an integer (error codes, counters, timestamps,
  agent ids) is an \<open>int\<close> or a \<open>nat\<close>; a coordinate is a \<open>real\<close>.
\<close>

type_synonym jsstring = "nat list"

definition str :: "string \<Rightarrow> jsstring" where
  "str s = map of_char s"

text \<open>Truthiness of an optional string: \<open>undefined\<close> and the empty string are falsy.\<close>

fun truthy :: "jsstring option \<Rightarrow> bool" where
  "truthy None = False"
| "truthy (Some s) = (s \<noteq> [])"

text \<open>\<open>a || d\<close> for an optional string \<open>a\<close> and a string \<open>d\<close>.\<close>

fun orDefault :: "jsstring option \<Rightarrow> jsstring \<Rightarrow> jsstring" where
  "orDefault None d = d"
| "orDefault (Some s) d = (if s = [] then d else s)"

text \<open>\<open>s.startsWith(p)\<close>.\<close>

definition startsWith :: "jsstring \<Rightarrow> jsstring \<Rightarrow> bool" where
  "startsWith s p = (take (length p) s = p)"

text \<open>\<open>xs.join(sep)\<close> on an array of strings.\<close>

fun join :: "jsstring list \<Rightarrow> jsstring \<Rightarrow> jsstring" where
  "join [] sep = []"
| "join [x] sep = x"
| "join (x # y # ys) sep = x @ sep @ join (y # ys) sep"

text \<open>Decimal rendering of an integer, as \<open>toString()\<close> and template literals give it.\<close>

fun show_nat :: "nat \<Rightarrow> jsstring" where
  "show_nat n = (if n < 10 then [48 + n] else show_nat (n div 10) @ [48 + n mod 10])"

declare show_nat.simps [simp del]

definition show_int :: "int \<Rightarrow> jsstring" where
  "show_int i = (if i < 0 then 45 # show_nat (nat (- i)) else show_nat (nat i))"

text \<open>The class \<open>\w\<close> of a regular expression without the unicode flag: \<open>[A-Za-z0-9_]\<close>.\<close>

definition isWordChar :: "nat \<Rightarrow> bool" where
  "isWordChar c = ((48 \<le> c \<and> c \<le> 57) \<or> (65 \<le> c \<and> c \<le> 90) \<or> c = 95 \<or> (97 \<le> c \<and> c \<le> 122))"

section \<open>The generic message model\<close>

text \<open>
  Modelled from the spec: the types \<open>ChannelPeer\<close>, \<open>ChannelMedia\<close> and \<open>ChannelMessage\<close>
  are declared in the plugin SDK, which is not part of the repository. The spec gives the
  peer kinds as \<open>dm | group\<close>; the fields are the ones the adapter and the sender read or
  write. A media type stays a string, since \<open>createMediaMessage\<close> has a branch for any
  other value. Of a quoted message (\<open>replyTo\<close>) the code reads \<open>senderName\<close> only.
\<close>

datatype peer_kind = Dm | Group

record ChannelPeer =
  kind :: peer_kind
  peer_id :: jsstring
  peer_name :: jsstring

record ChannelMedia =
  media_type :: jsstring
  media_url :: jsstring
  caption :: "jsstring option"

record Mention =
  userId :: jsstring
  mention_name :: jsstring

record Location =
  latitude :: real
  longitude :: real

record ChannelEvent =
  event_type :: jsstring
  event_key :: "jsstring option"

record ReplyRef =
  senderName :: "jsstring option"

record ChannelMessage =
  peer :: ChannelPeer
  msg_text :: "jsstring option"
  media :: "ChannelMedia list option"
  replyTo :: "ReplyRef option"
  timestamp :: int
  msg_id :: jsstring
  channel :: jsstring
  accountId :: jsstring
  mentions :: "Mention list option"
  location :: "Location option"
  event :: "ChannelEvent option"

section \<open>The vendor wire format (types.ts)\<close>

datatype WeComMessageType = Text | Image | Voice | Video | File | Textcard | News | Markdown

record WeComMessageContent =
  content :: "jsstring option"
  media_id :: "jsstring option"
  title :: "jsstring option"
  description :: "jsstring option"
  url :: "jsstring option"
  picurl :: "jsstring option"
  btntxt :: "jsstring option"
  markdown_content :: "jsstring option"

definition emptyContent :: WeComMessageContent where
  "emptyContent = \<lparr>content = None, media_id = None, title = None, description = None,
     url = None, picurl = None, btntxt = None, markdown_content = None\<rparr>"

record WeComSendMessageParams =
  touser :: "jsstring option"
  toparty :: "jsstring option"
  totag :: "jsstring option"
  msgtype :: WeComMessageType
  agentid :: int
  params_content :: WeComMessageContent

text \<open>
  The inbound payload. \<open>MsgType\<close> is the raw vendor string: the translation has a case
  for \<open>location\<close> and a default case, both outside \<open>WeComMessageType\<close>.
\<close>

record WeComReceivedMessage =
  ToUserName :: jsstring
  FromUserName :: jsstring
  CreateTime :: int
  MsgType :: jsstring
  MsgId :: jsstring
  AgentID :: int
  Content :: "jsstring option"
  MediaId :: "jsstring option"
  PicUrl :: "jsstring option"
  Location_X :: "real option"
  Location_Y :: "real option"
  Scale :: "real option"
  Label :: "jsstring option"
  Event :: "jsstring option"
  EventKey :: "jsstring option"

section \<open>The message adapter (WeComMessageAdapterImpl)\<close>

text \<open>
  The adapter's two fields, \<open>agentId\<close> and \<open>messagePrefix\<close>, are fixed by the constructor
  and are the first two arguments of every method.
\<close>

text \<open>
  The prefix step of \<open>toWeComMessage\<close>:
  \<^verbatim>\<open>if (this.messagePrefix && !contentText.startsWith(this.messagePrefix))
     contentText = this.messagePrefix + contentText;\<close>
\<close>

fun applyMessagePrefix :: "jsstring option \<Rightarrow> jsstring \<Rightarrow> jsstring" where
  "applyMessagePrefix None contentText = contentText"
| "applyMessagePrefix (Some p) contentText =
     (if p \<noteq> [] \<and> \<not> startsWith contentText p then p @ contentText else contentText)"

text \<open>
  The reply attribution: U+56DE U+590D, a space, the sender's name or U+7528 U+6237,
  a colon and a line feed, then the text.
\<close>

fun applyReplyTo :: "ReplyRef option \<Rightarrow> jsstring \<Rightarrow> jsstring" where
  "applyReplyTo None contentText = contentText"
| "applyReplyTo (Some r) contentText =
     [0x56DE, 0x590D, 0x20] @ orDefault (senderName r) [0x7528, 0x6237] @ [0x3A, 0x0A] @ contentText"

definition createMediaMessage ::
  "int \<Rightarrow> ChannelMedia \<Rightarrow> jsstring option \<Rightarrow> jsstring option \<Rightarrow> WeComSendMessageParams" where
  "createMediaMessage agentId m tu tp =
     (let ty = media_type m; u = media_url m; cap = caption m;
          (mt, c0) =
            (if ty = str ''image'' then (Image, emptyContent\<lparr>media_id := Some u\<rparr>)
             else if ty = str ''video'' then (Video, emptyContent\<lparr>media_id := Some u\<rparr>)
             else if ty = str ''audio'' then (Voice, emptyContent\<lparr>media_id := Some u\<rparr>)
             else if ty = str ''file'' then (File, emptyContent\<lparr>media_id := Some u\<rparr>)
             else (Text, emptyContent\<lparr>content :=
                     Some (str ''['' @ ty @ str ''] '' @ u @
                           (case cap of Some c \<Rightarrow> (if c \<noteq> [] then 0x0A # c else []) | None \<Rightarrow> []))\<rparr>));
          c1 = (if truthy cap \<and> ty \<noteq> str ''file'' then c0\<lparr>content := cap\<rparr> else c0)
      in \<lparr>touser = tu, toparty = tp, totag = None, msgtype = mt, agentid = agentId,
          params_content = c1\<rparr>)"

definition toWeComMessage ::
  "int \<Rightarrow> jsstring option \<Rightarrow> ChannelMessage \<Rightarrow> WeComSendMessageParams" where
  "toWeComMessage agentId messagePrefix msg =
     (let tu = (if kind (peer msg) = Dm then Some (peer_id (peer msg)) else None);
          tp = (if kind (peer msg) = Dm then None
                else if kind (peer msg) = Group then Some (peer_id (peer msg)) else None);
          contentText =
            applyReplyTo (replyTo msg)
              (applyMessagePrefix messagePrefix (orDefault (msg_text msg) []))
      in case media msg of
           Some (mediaItem # rest) \<Rightarrow> createMediaMessage agentId mediaItem tu tp
         | _ \<Rightarrow> \<lparr>touser = tu, toparty = tp, totag = None, msgtype = Text, agentid = agentId,
                 params_content = emptyContent\<lparr>content := Some contentText\<rparr>\<rparr>)"

text \<open>
  \<open>extractMentionedUsers\<close>: the loop \<open>while ((match = /@(\w+)/g.exec(text)) !== null)\<close>.
  A match starts at the leftmost \<open>@\<close> (code unit 64) that a word character follows, its
  group is the longest run of word characters after it, and the next search starts where
  the match ended.
\<close>

function extractMentionedUsers :: "jsstring \<Rightarrow> jsstring list" where
  "extractMentionedUsers [] = []"
| "extractMentionedUsers (c # cs) =
     (if c = 64 \<and> takeWhile isWordChar cs \<noteq> []
      then takeWhile isWordChar cs # extractMentionedUsers (dropWhile isWordChar cs)
      else extractMentionedUsers cs)"
  by pat_completeness auto
termination
  by (relation "measure length") (auto simp: length_dropWhile_le less_Suc_eq_le)

text \<open>The single match \<open>content.match(/@(\w+)/)\<close> of the inbound translation: its group.\<close>

fun firstMention :: "jsstring \<Rightarrow> jsstring option" where
  "firstMention [] = None"
| "firstMention (c # cs) =
     (if c = 64 \<and> takeWhile isWordChar cs \<noteq> [] then Some (takeWhile isWordChar cs)
      else firstMention cs)"

definition buildMentionText :: "jsstring list \<Rightarrow> jsstring \<Rightarrow> jsstring" where
  "buildMentionText userIds txt =
     (if length userIds = 0 then txt
      else join (map (\<lambda>i. 64 # i) userIds) (str '' '') @ [0x0A] @ txt)"

text \<open>
  \<open>fromWeComMessage\<close>. The texts it makes up are
  U+4F4D U+7F6E \<open>: \<close> (location) with U+672A U+77E5 U+4F4D U+7F6E when there is no label,
  U+672A U+77E5 U+6D88 U+606F U+7C7B U+578B (unknown kind), and the three event summaries.
\<close>

definition baseMessage :: "WeComReceivedMessage \<Rightarrow> ChannelMessage" where
  "baseMessage msg =
     \<lparr>peer = \<lparr>kind = Dm, peer_id = FromUserName msg, peer_name = FromUserName msg\<rparr>,
      msg_text = None, media = None, replyTo = None,
      timestamp = CreateTime msg * 1000,
      msg_id = MsgId msg,
      channel = str ''wecom'',
      accountId = show_int (AgentID msg),
      mentions = None, location = None, event = None\<rparr>"

definition mediaOf :: "string \<Rightarrow> jsstring \<Rightarrow> jsstring option \<Rightarrow> ChannelMedia list" where
  "mediaOf ty u cap = [\<lparr>media_type = str ty, media_url = u, caption = cap\<rparr>]"

definition addContent :: "WeComReceivedMessage \<Rightarrow> ChannelMessage \<Rightarrow> ChannelMessage" where
  "addContent msg cm =
     (if MsgType msg = str ''text'' then
        (case Content msg of
           None \<Rightarrow> cm
         | Some c \<Rightarrow>
             if c = [] then cm
             else (case firstMention c of
                     None \<Rightarrow> cm\<lparr>msg_text := Some c\<rparr>
                   | Some u \<Rightarrow> cm\<lparr>msg_text := Some c,
                                 mentions := Some [\<lparr>userId = u, mention_name = u\<rparr>]\<rparr>))
      else if MsgType msg = str ''image'' then
        (if truthy (MediaId msg) \<or> truthy (PicUrl msg)
         then cm\<lparr>media := Some (mediaOf ''image''
                  (if truthy (MediaId msg) then the (MediaId msg) else orDefault (PicUrl msg) [])
                  (Content msg))\<rparr>
         else cm)
      else if MsgType msg = str ''voice'' then
        (if truthy (MediaId msg)
         then cm\<lparr>media := Some (mediaOf ''audio'' (the (MediaId msg)) (Content msg))\<rparr> else cm)
      else if MsgType msg = str ''video'' then
        (if truthy (MediaId msg)
         then cm\<lparr>media := Some (mediaOf ''video'' (the (MediaId msg)) (Content msg))\<rparr> else cm)
      else if MsgType msg = str ''file'' then
        (if truthy (MediaId msg)
         then cm\<lparr>media := Some (mediaOf ''file'' (the (MediaId msg)) (Content msg))\<rparr> else cm)
      else if MsgType msg = str ''location'' then
        cm\<lparr>msg_text := Some ([0x4F4D, 0x7F6E, 0x3A, 0x20] @
                  orDefault (Label msg) [0x672A, 0x77E5, 0x4F4D, 0x7F6E]),
           location := Some \<lparr>latitude = (case Location_X msg of None \<Rightarrow> 0 | Some x \<Rightarrow> x),
                              longitude = (case Location_Y msg of None \<Rightarrow> 0 | Some y \<Rightarrow> y)\<rparr>\<rparr>
      else
        cm\<lparr>msg_text := Some (str ''['' @ MsgType msg @ str ''] '' @
                  orDefault (Content msg) [0x672A, 0x77E5, 0x6D88, 0x606F, 0x7C7B, 0x578B])\<rparr>)"

definition addEvent :: "WeComReceivedMessage \<Rightarrow> ChannelMessage \<Rightarrow> ChannelMessage" where
  "addEvent msg cm =
     (case Event msg of
        None \<Rightarrow> cm
      | Some e \<Rightarrow>
          if e = [] then cm
          else
            (let cm1 = cm\<lparr>event := Some \<lparr>event_type = e,
                           event_key = (if truthy (EventKey msg) then EventKey msg else None)\<rparr>\<rparr>
             in if e = str ''subscribe''
                then cm1\<lparr>msg_text := Some [0x7528, 0x6237, 0x5173, 0x6CE8, 0x4E86, 0x5E94, 0x7528]\<rparr>
                else if e = str ''unsubscribe''
                then cm1\<lparr>msg_text :=
                       Some [0x7528, 0x6237, 0x53D6, 0x6D88, 0x5173, 0x6CE8, 0x5E94, 0x7528]\<rparr>
                else if e = str ''enter_agent''
                then cm1\<lparr>msg_text := Some [0x7528, 0x6237, 0x8FDB, 0x5165, 0x4E86, 0x5E94, 0x7528]\<rparr>
                else cm1))"

definition fromWeComMessage :: "WeComReceivedMessage \<Rightarrow> ChannelMessage" where
  "fromWeComMessage msg = addEvent msg (addContent msg (baseMessage msg))"

section \<open>The API client (WeComApiClient)\<close>

text \<open>
  The configuration fields the client, the adapter and the sender read. The vendor and
  the clock are the environment: the \<open>n\<close>-th HTTP call to an endpoint gets the \<open>n\<close>-th
  outcome of that endpoint's script, and the \<open>n\<close>-th reading of \<open>Date.now()\<close> gets the
  \<open>n\<close>-th clock value. An outcome is either a failure of \<open>request\<close> before a JSON body
  is there (network error, HTTP status not ok, timeout), with the message of the thrown
  \<open>Error\<close>, or the JSON body. One record holds the fields of the body that the code
  reads: \<open>access_token\<close> and \<open>expires_in\<close> of the token endpoint (the declared response
  type makes \<open>expires_in\<close> a number), and \<open>data?.msgid\<close> of the send endpoint.

  The client's state is its \<open>accessToken\<close> field together with the positions in the
  three scripts. A thrown exception is \<open>Inl\<close>. \<open>request\<close> may call
  \<open>refreshAccessToken\<close>, which calls \<open>request\<close>; with a token endpoint that keeps
  answering 40014 or 42001 this never ends, so \<open>request\<close> is a partial function and
  not returning is \<open>None\<close>. The mutual recursion is written with the body of
  \<open>refreshAccessToken\<close> in place; \<open>request_unfold\<close> below gives the source's shape.
\<close>

record WeComConfig =
  corpId :: "jsstring option"
  corpSecret :: "jsstring option"
  agentId :: "int option"
  messagePrefix :: "jsstring option"
  maxRetries :: "int option"

record WeComAccessToken =
  access_token :: jsstring
  expires_in :: int
  expires_at :: int

record WeComApiResponse =
  errcode :: int
  errmsg :: jsstring
  resp_access_token :: "jsstring option"
  resp_expires_in :: int
  resp_msgid :: "jsstring option"

datatype http_outcome = Fails jsstring | Responds WeComApiResponse

record env =
  config :: WeComConfig
  tokenEndpoint :: "nat \<Rightarrow> http_outcome"
  sendEndpoint :: "nat \<Rightarrow> http_outcome"
  clock :: "nat \<Rightarrow> int"

record api_state =
  accessToken :: "WeComAccessToken option"
  tokenCalls :: nat
  sendCalls :: nat
  ticks :: nat

record WeComSendError =
  error_message :: jsstring
  errorCode :: int
  originalMessage :: ChannelMessage

datatype js_error = Error jsstring | SendError WeComSendError

datatype endpoint = GetToken | MessageSend

definition now :: "env \<Rightarrow> api_state \<Rightarrow> int \<times> api_state" where
  "now e a = (clock e (ticks a), a\<lparr>ticks := Suc (ticks a)\<rparr>)"

fun fetch :: "env \<Rightarrow> endpoint \<Rightarrow> api_state \<Rightarrow> http_outcome \<times> api_state" where
  "fetch e GetToken a = (tokenEndpoint e (tokenCalls a), a\<lparr>tokenCalls := Suc (tokenCalls a)\<rparr>)"
| "fetch e MessageSend a = (sendEndpoint e (sendCalls a), a\<lparr>sendCalls := Suc (sendCalls a)\<rparr>)"

definition hasCredentials :: "WeComConfig \<Rightarrow> bool" where
  "hasCredentials c = (truthy (corpId c) \<and> truthy (corpSecret c))"

definition missingCredentials :: js_error where
  "missingCredentials = Error ([0x7F3A, 0x5C11] @ str ''corpId'' @ [0x6216] @ str ''corpSecret'' @ [0x914D, 0x7F6E])"

definition storeToken :: "env \<Rightarrow> WeComApiResponse \<Rightarrow> api_state \<Rightarrow> (js_error + unit) \<times> api_state" where
  "storeToken e r a =
     (if errcode r = 0 \<and> truthy (resp_access_token r) then
        (let (t, a1) = now e a in
           (Inr (), a1\<lparr>accessToken := Some \<lparr>access_token = the (resp_access_token r),
               expires_in = resp_expires_in r,
               expires_at = t + (resp_expires_in r - 300) * 1000\<rparr>\<rparr>))
      else (Inl (Error ([0x83B7, 0x53D6, 0x8BBF, 0x95EE, 0x4EE4, 0x724C, 0x5931, 0x8D25, 0x3A, 0x20] @
                  errmsg r @ str '' ('' @ show_int (errcode r) @ str '')'')), a))"

partial_function (option) request ::
  "env \<Rightarrow> endpoint \<Rightarrow> api_state \<Rightarrow> ((js_error + WeComApiResponse) \<times> api_state) option" where
  "request e ep a =
     (case fetch e ep a of
        (Fails m, a1) \<Rightarrow> Some (Inl (Error m), a1)
      | (Responds d, a1) \<Rightarrow>
          if errcode d = 40014 \<or> errcode d = 42001 then
            (if \<not> hasCredentials (config e) then Some (Inl missingCredentials, a1)
             else Option.bind (request e GetToken a1)
                    (\<lambda>(res, a2). case res of
                        Inl err \<Rightarrow> Some (Inl err, a2)
                      | Inr r \<Rightarrow> (case storeToken e r a2 of
                                    (Inl err, a3) \<Rightarrow> Some (Inl err, a3)
                                  | (Inr u, a3) \<Rightarrow> Some (Inr d, a3))))
          else Some (Inr d, a1))"

definition refreshAccessToken :: "env \<Rightarrow> api_state \<Rightarrow> ((js_error + unit) \<times> api_state) option" where
  "refreshAccessToken e a =
     (if \<not> hasCredentials (config e) then Some (Inl missingCredentials, a)
      else Option.bind (request e GetToken a)
             (\<lambda>(res, a1). case res of
                 Inl err \<Rightarrow> Some (Inl err, a1)
               | Inr r \<Rightarrow> Some (storeToken e r a1)))"

definition getAccessToken :: "env \<Rightarrow> api_state \<Rightarrow> ((js_error + jsstring) \<times> api_state) option" where
  "getAccessToken e a =
     (let finish = (\<lambda>a'. case accessToken a' of
                      None \<Rightarrow> (Inl (Error [0x65E0, 0x6CD5, 0x83B7, 0x53D6, 0x8BBF, 0x95EE, 0x4EE4, 0x724C]), a')
                    | Some t \<Rightarrow> (Inr (access_token t), a'));
          refresh = (\<lambda>a'. Option.bind (refreshAccessToken e a')
                      (\<lambda>(res, a1). case res of
                          Inl err \<Rightarrow> Some (Inl err, a1)
                        | Inr u \<Rightarrow> Some (finish a1)))
      in case accessToken a of
           None \<Rightarrow> refresh a
         | Some t \<Rightarrow> (let (n, a0) = now e a in
                        if n \<ge> expires_at t then refresh a0 else Some (finish a0)))"

definition sendMessage ::
  "env \<Rightarrow> WeComSendMessageParams \<Rightarrow> api_state \<Rightarrow> ((js_error + WeComApiResponse) \<times> api_state) option" where
  "sendMessage e params a =
     Option.bind (getAccessToken e a)
       (\<lambda>(res, a1). case res of
           Inl err \<Rightarrow> Some (Inl err, a1)
         | Inr token \<Rightarrow> request e MessageSend a1)"

section \<open>The message sender (WeComMessageSender)\<close>

text \<open>
  The sender's state: its \<open>retryCount\<close> field, its API client, and the delays it has
  waited (each \<open>setTimeout\<close> of \<open>retrySend\<close> is recorded, in order). \<open>send\<close> wraps its
  whole body in \<open>try\<close>/\<open>catch\<close>: \<open>caught\<close> is the handler, which rethrows a
  \<open>WeComSendError\<close> and wraps any other \<open>Error\<close> as code 500. Logging is left out.
\<close>

record SendResult =
  success :: bool
  messageId :: jsstring
  result_timestamp :: int
  result_error :: "jsstring option"

record sender_state =
  retryCount :: nat
  slept :: "int list"
  api :: api_state

definition newWeComSendError :: "jsstring \<Rightarrow> int \<Rightarrow> ChannelMessage \<Rightarrow> WeComSendError" where
  "newWeComSendError m code orig =
     \<lparr>error_message = [0x4F01, 0x4E1A, 0x5FAE, 0x4FE1, 0x53D1, 0x9001, 0x9519, 0x8BEF, 0x20] @
                        show_int code @ str '': '' @ m,
      errorCode = code, originalMessage = orig\<rparr>"

definition isRecoverable :: "WeComSendError \<Rightarrow> bool" where
  "isRecoverable err = (errorCode err \<in> set [42001, 40014, 45033])"

definition maxRetriesOrDefault :: "WeComConfig \<Rightarrow> int" where
  "maxRetriesOrDefault c = (case maxRetries c of None \<Rightarrow> 3 | Some n \<Rightarrow> if n = 0 then 3 else n)"

definition retryableErrors :: "int list" where
  "retryableErrors = [42001, 40014, 45033, 45009, 50001]"

definition shouldRetry :: "WeComConfig \<Rightarrow> sender_state \<Rightarrow> int \<Rightarrow> bool" where
  "shouldRetry c s errorCode' =
     (errorCode' \<in> set retryableErrors \<and> int (retryCount s) < maxRetriesOrDefault c)"

fun catchSend :: "ChannelMessage \<Rightarrow> js_error \<Rightarrow> js_error" where
  "catchSend msg (SendError w) = SendError w"
| "catchSend msg (Error m) = SendError (newWeComSendError m 500 msg)"

fun caught :: "ChannelMessage \<Rightarrow> (js_error + SendResult) \<times> sender_state \<Rightarrow>
    (js_error + SendResult) \<times> sender_state" where
  "caught msg (Inl err, s) = (Inl (catchSend msg err), s)"
| "caught msg (Inr r, s) = (Inr r, s)"

definition succeed :: "env \<Rightarrow> WeComApiResponse \<Rightarrow> api_state \<Rightarrow> SendResult \<times> api_state" where
  "succeed e response a =
     (let (mid, a1) = (if truthy (resp_msgid response) then (the (resp_msgid response), a)
                       else (let (t, a') = now e a in (str ''wecom-'' @ show_int t, a')));
          (ts, a2) = now e a1
      in (\<lparr>success = True, messageId = mid, result_timestamp = ts, result_error = None\<rparr>, a2))"

function send :: "env \<Rightarrow> sender_state \<Rightarrow> ChannelMessage \<Rightarrow>
    ((js_error + SendResult) \<times> sender_state) option"
  and retrySend :: "env \<Rightarrow> sender_state \<Rightarrow> ChannelMessage \<Rightarrow> WeComSendError \<Rightarrow>
    ((js_error + SendResult) \<times> sender_state) option" where
  "send e s message =
     (case sendMessage e
             (toWeComMessage (case agentId (config e) of None \<Rightarrow> 0 | Some n \<Rightarrow> n)
                (messagePrefix (config e)) message) (api s) of
        None \<Rightarrow> None
      | Some (Inl err, a1) \<Rightarrow> Some (caught message (Inl err, s\<lparr>api := a1\<rparr>))
      | Some (Inr response, a1) \<Rightarrow>
          if errcode response = 0 then
            (let (r, a2) = succeed e response a1
             in Some (Inr r, s\<lparr>retryCount := 0, api := a2\<rparr>))
          else if shouldRetry (config e) (s\<lparr>api := a1\<rparr>) (errcode response) then
            map_option (caught message)
              (retrySend e (s\<lparr>api := a1\<rparr>) message
                 (newWeComSendError (errmsg response) (errcode response) message))
          else Some (Inl (SendError (newWeComSendError (errmsg response) (errcode response) message)),
                     s\<lparr>api := a1\<rparr>))"
| "retrySend e s message err =
     (let s1 = s\<lparr>retryCount := Suc (retryCount s)\<rparr>;
          delay = min (1000 * 2 ^ retryCount s1) 10000;
          s2 = s1\<lparr>slept := slept s1 @ [delay]\<rparr>
      in if errorCode err = 42001 \<or> errorCode err = 40014 then
           (case refreshAccessToken e (api s2) of
              None \<Rightarrow> None
            | Some (Inl x, a1) \<Rightarrow> Some (Inl x, s2\<lparr>api := a1\<rparr>)
            | Some (Inr u, a1) \<Rightarrow> send e (s2\<lparr>api := a1\<rparr>) message)
         else send e s2 message)"
  by pat_completeness auto
termination
  apply (relation "measure (\<lambda>x. case x of
           Inl (e, s, m) \<Rightarrow> 2 * (nat (maxRetriesOrDefault (config e)) - retryCount s) + 1
         | Inr (e, s, m, err) \<Rightarrow> 2 * (nat (maxRetriesOrDefault (config e)) - Suc (retryCount s)) + 2)")
  apply (auto simp: shouldRetry_def)
  done

declare send.simps [simp del] retrySend.simps [simp del]

section \<open>Concurrent calls of getAccessToken\<close>

text \<open>
  A call of an async function runs without interruption up to its first \<open>await\<close> on a
  promise that is still pending, and nothing else runs in between. In \<open>getAccessToken\<close>
  that is the \<open>await fetch(...)\<close> of \<open>request\<close>, reached through
  \<open>refreshAccessToken\<close>: when the call returns its promise, the HTTP request to the token
  endpoint has been issued, and the field \<open>accessToken\<close> is written only once the
  response is there. So a call is two pieces. \<open>getAccessToken_start\<close> is the piece up to
  the \<open>fetch\<close>: it ends either finished (a valid cached token, or no credentials), or
  awaiting the response to the request it has issued. \<open>getAccessToken_resume\<close> is the
  piece that runs when that response arrives. A response with code 40014 or 42001 makes
  \<open>request\<close> call \<open>refreshAccessToken\<close> again, which issues the next request and
  suspends again; the responses of the enclosing \<open>request\<close> frames are kept, innermost
  first, and \<open>unwind\<close> runs what is left of each frame once the innermost refresh has
  returned (\<open>storeToken\<close> on that frame's response, and at the end the return of
  \<open>getAccessToken\<close>).
\<close>

datatype pending = Awaiting nat "WeComApiResponse list" | Finished "js_error + jsstring"

definition refresh_start :: "env \<Rightarrow> WeComApiResponse list \<Rightarrow> api_state \<Rightarrow> pending \<times> api_state" where
  "refresh_start e outer a =
     (if \<not> hasCredentials (config e) then (Finished (Inl missingCredentials), a)
      else (Awaiting (tokenCalls a) outer, a\<lparr>tokenCalls := Suc (tokenCalls a)\<rparr>))"

definition getAccessToken_start :: "env \<Rightarrow> api_state \<Rightarrow> pending \<times> api_state" where
  "getAccessToken_start e a =
     (case accessToken a of
        None \<Rightarrow> refresh_start e [] a
      | Some t \<Rightarrow> (let (n, a0) = now e a in
                     if n \<ge> expires_at t then refresh_start e [] a0
                     else (Finished (Inr (access_token t)), a0)))"

fun unwind :: "env \<Rightarrow> WeComApiResponse list \<Rightarrow> api_state \<Rightarrow> (js_error + jsstring) \<times> api_state" where
  "unwind e [] a =
     (case accessToken a of
        None \<Rightarrow> (Inl (Error [0x65E0, 0x6CD5, 0x83B7, 0x53D6, 0x8BBF, 0x95EE, 0x4EE4, 0x724C]), a)
      | Some t \<Rightarrow> (Inr (access_token t), a))"
| "unwind e (d # ds) a =
     (case storeToken e d a of
        (Inl err, a1) \<Rightarrow> (Inl err, a1)
      | (Inr u, a1) \<Rightarrow> unwind e ds a1)"

definition getAccessToken_resume ::
  "env \<Rightarrow> nat \<Rightarrow> WeComApiResponse list \<Rightarrow> api_state \<Rightarrow> pending \<times> api_state" where
  "getAccessToken_resume e i outer a =
     (case tokenEndpoint e i of
        Fails m \<Rightarrow> (Finished (Inl (Error m)), a)
      | Responds r \<Rightarrow>
          if errcode r = 40014 \<or> errcode r = 42001 then refresh_start e (r # outer) a
          else (let (res, a1) = unwind e (r # outer) a in (Finished res, a1)))"

text \<open>
  A call running alone, each response delivered as soon as it is awaited, for at most
  \<open>n\<close> responses; \<open>getAccessToken_iff_complete\<close> below shows that this is
  \<open>getAccessToken\<close>. Then \<open>n\<close> calls made one after the other before any response has
  arrived, as \<open>Promise.all\<close> over \<open>n\<close> calls makes them.
\<close>

fun complete :: "nat \<Rightarrow> env \<Rightarrow> pending \<times> api_state \<Rightarrow> ((js_error + jsstring) \<times> api_state) option" where
  "complete n e (Finished res, a) = Some (res, a)"
| "complete 0 e (Awaiting i outer, a) = None"
| "complete (Suc n) e (Awaiting i outer, a) = complete n e (getAccessToken_resume e i outer a)"

fun startCalls :: "env \<Rightarrow> nat \<Rightarrow> api_state \<Rightarrow> pending list \<times> api_state" where
  "startCalls e 0 a = ([], a)"
| "startCalls e (Suc n) a =
     (let (p, a1) = getAccessToken_start e a; (ps, a2) = startCalls e n a1 in (p # ps, a2))"

section \<open>Predicates used in the statements\<close>

text \<open>
  What a call of \<open>send\<close> or \<open>retrySend\<close> that started in state \<open>s\<close> leaves in the retry
  counter: zero after a success; after a failure, the counter it started with plus one
  for every delay waited since (every retry).
\<close>

definition counted :: "sender_state \<Rightarrow> (js_error + SendResult) \<times> sender_state \<Rightarrow> bool" where
  "counted s out =
     (case out of
        (Inr r, s') \<Rightarrow> success r \<and> retryCount s' = 0
      | (Inl x, s') \<Rightarrow> retryCount s' + length (slept s) = retryCount s + length (slept s'))"

text \<open>
  The environments of the retry claims: credentials are configured and the token endpoint
  always answers with a token; every answer of the send endpoint is one of the error
  codes that \<open>shouldRetry\<close> lists.
\<close>

definition tokenEndpointHealthy :: "env \<Rightarrow> bool" where
  "tokenEndpointHealthy e =
     (hasCredentials (config e) \<and>
      (\<forall>i. \<exists>r. tokenEndpoint e i = Responds r \<and> errcode r = 0 \<and> truthy (resp_access_token r)))"

definition alwaysRetryable :: "env \<Rightarrow> bool" where
  "alwaysRetryable e =
     (\<forall>i. \<exists>r. sendEndpoint e i = Responds r \<and> errcode r \<in> set retryableErrors)"

text \<open>
  A caller that awaits one \<open>send\<close> after the other on the same sender, catching what a
  \<open>send\<close> throws: the results in order, and the sender's state at the end.
\<close>

fun sendAll :: "env \<Rightarrow> sender_state \<Rightarrow> ChannelMessage list \<Rightarrow>
    ((js_error + SendResult) list \<times> sender_state) option" where
  "sendAll e s [] = Some ([], s)"
| "sendAll e s (m # ms) =
     (case send e s m of
        None \<Rightarrow> None
      | Some (r, s1) \<Rightarrow>
          (case sendAll e s1 ms of
             None \<Rightarrow> None
           | Some (rs, s2) \<Rightarrow> Some (r # rs, s2)))"

text \<open>
  \<open>refreshAccessToken\<close> followed by what is left of the enclosing frames; and the
  states in which every call of \<open>getAccessToken\<close> finds the token absent or expired
  (expired at every later reading of the clock).
\<close>

definition refreshThen :: "env \<Rightarrow> WeComApiResponse list \<Rightarrow> api_state \<Rightarrow>
    ((js_error + jsstring) \<times> api_state) option" where
  "refreshThen e outer a =
     Option.bind (refreshAccessToken e a)
       (\<lambda>(res, a1). case res of Inl err \<Rightarrow> Some (Inl err, a1) | Inr u \<Rightarrow> Some (unwind e outer a1))"

definition needsRefresh :: "env \<Rightarrow> api_state \<Rightarrow> bool" where
  "needsRefresh e a =
     (case accessToken a of
        None \<Rightarrow> True
      | Some t \<Rightarrow> (\<forall>k. ticks a \<le> k \<longrightarrow> expires_at t \<le> clock e k))"

text \<open>What \<open>refreshAccessToken\<close> and the enclosing frames do with the outcome of
  \<open>request\<close> on the token endpoint.\<close>

fun afterRequest :: "env \<Rightarrow> WeComApiResponse list \<Rightarrow> (js_error + WeComApiResponse) \<times> api_state \<Rightarrow>
    (js_error + jsstring) \<times> api_state" where
  "afterRequest e outer (Inl err, a) = (Inl err, a)"
| "afterRequest e outer (Inr r, a) = unwind e (r # outer) a"

text \<open>
  What a call of \<open>send\<close> or \<open>retrySend\<close> that started in state \<open>s\<close> and returned a
  result has seen: among the answers of the send endpoint to the attempts it made, one
  with code 0.
\<close>

definition gotCodeZero :: "env \<Rightarrow> sender_state \<Rightarrow> (js_error + SendResult) \<times> sender_state \<Rightarrow> bool" where
  "gotCodeZero e s out =
     (sendCalls (api s) \<le> sendCalls (api (snd out)) \<and>
      (case fst out of
         Inl x \<Rightarrow> True
       | Inr res \<Rightarrow> (\<exists>i r. sendCalls (api s) \<le> i \<and> i < sendCalls (api (snd out)) \<and>
                        sendEndpoint e i = Responds r \<and> errcode r = 0)))"

section \<open>Example inputs\<close>

text \<open>
  An inbound text message with the given \<open>Content\<close> and \<open>Event\<close>, and the event names for
  which \<open>fromWeComMessage\<close> replaces the text by a summary.
\<close>

definition inboundText :: "jsstring \<Rightarrow> jsstring option \<Rightarrow> WeComReceivedMessage" where
  "inboundText c ev =
     \<lparr>ToUserName = str ''corp'', FromUserName = str ''wangwu'', CreateTime = 1700000000,
      MsgType = str ''text'', MsgId = str ''m1'', AgentID = 1000001, Content = Some c,
      MediaId = None, PicUrl = None, Location_X = None, Location_Y = None, Scale = None,
      Label = None, Event = ev, EventKey = None\<rparr>"

definition eventSummaries :: "jsstring list" where
  "eventSummaries = [str ''subscribe'', str ''unsubscribe'', str ''enter_agent'']"

text \<open>
  A configuration with credentials and \<open>maxRetries: 3\<close>; an environment whose token
  endpoint always grants \<open>tok\<close> for 7200 seconds and whose send endpoint always gives the
  same answer; a sender that has done nothing yet; and a text message to \<open>u1\<close>.
\<close>

definition exampleConfig :: WeComConfig where
  "exampleConfig = \<lparr>corpId = Some (str ''ww1''), corpSecret = Some (str ''secret''),
     agentId = Some 1000001, messagePrefix = None, maxRetries = Some 3\<rparr>"

definition goodToken :: WeComApiResponse where
  "goodToken = \<lparr>errcode = 0, errmsg = str ''ok'', resp_access_token = Some (str ''tok''),
     resp_expires_in = 7200, resp_msgid = None\<rparr>"

definition vendorError :: "int \<Rightarrow> string \<Rightarrow> WeComApiResponse" where
  "vendorError c m = \<lparr>errcode = c, errmsg = str m, resp_access_token = None,
     resp_expires_in = 0, resp_msgid = None\<rparr>"

definition exampleEnv :: "WeComApiResponse \<Rightarrow> env" where
  "exampleEnv r = \<lparr>config = exampleConfig, tokenEndpoint = (\<lambda>i. Responds goodToken),
     sendEndpoint = (\<lambda>i. Responds r), clock = (\<lambda>n. 1700000000000 + 1000 * int n)\<rparr>"

definition freshClient :: api_state where
  "freshClient = \<lparr>accessToken = None, tokenCalls = 0, sendCalls = 0, ticks = 0\<rparr>"

definition freshSender :: sender_state where
  "freshSender = \<lparr>retryCount = 0, slept = [], api = freshClient\<rparr>"

definition exampleMessage :: "string \<Rightarrow> ChannelMessage" where
  "exampleMessage t = \<lparr>peer = \<lparr>kind = Dm, peer_id = str ''u1'', peer_name = str ''U1''\<rparr>,
     msg_text = Some (str t), media = None, replyTo = None, timestamp = 1700000000000,
     msg_id = str ''temp-1'', channel = str ''wecom'', accountId = str ''1000001'',
     mentions = None, location = None, event = None\<rparr>"


text \<open>
  A successful answer of the send endpoint, and an environment whose send endpoint
  answers 45009 to the first attempt and succeeds from the second on.
\<close>

definition okResponse :: WeComApiResponse where
  "okResponse = \<lparr>errcode = 0, errmsg = str ''ok'', resp_access_token = None,
     resp_expires_in = 0, resp_msgid = Some (str ''m1'')\<rparr>"

definition recoverEnv :: env where
  "recoverEnv = \<lparr>config = exampleConfig, tokenEndpoint = (\<lambda>i. Responds goodToken),
     sendEndpoint = (\<lambda>i. if i = 0 then Responds (vendorError 45009 ''api freq out of limit'')
                         else Responds okResponse),
     clock = (\<lambda>n. 1700000000000 + 1000 * int n)\<rparr>"

section \<open>Properties of the adapter\<close>

lemma startsWith_iff: "startsWith t p = (\<exists>s. t = p @ s)"
  unfolding startsWith_def
  by (metis append_eq_conv_conj append_take_drop_id)





text \<open>
  C7. \<open>extractMentionedUsers\<close> on \<open>@zhangsan @lisi\<close> followed by a space and the five
  characters U+8BF7 U+53C2 U+52A0 U+4F1A U+8BAE gives \<open>zhangsan\<close>, \<open>lisi\<close> in this order;
  \<open>buildMentionText\<close> on the ids \<open>a\<close>, \<open>b\<close> and the body \<open>go\<close> gives \<open>@a @b\<close>, a line feed,
  \<open>go\<close>.
\<close>

theorem mention_utilities_examples:
  "extractMentionedUsers (str ''@zhangsan @lisi '' @ [0x8BF7, 0x53C2, 0x52A0, 0x4F1A, 0x8BAE])
     = [str ''zhangsan'', str ''lisi'']
   \<and> buildMentionText [str ''a'', str ''b''] (str ''go'') = str ''@a @b'' @ [0x0A] @ str ''go''"
  by (simp add: str_def isWordChar_def buildMentionText_def)

lemma firstMention_extract:
  "firstMention t = (case extractMentionedUsers t of [] \<Rightarrow> None | u # us \<Rightarrow> Some u)"
  by (induction t) auto

lemma msg_text_addEvent:
  "Event msg = None \<or> (\<exists>e. Event msg = Some e \<and> e \<notin> set eventSummaries) \<Longrightarrow>
   msg_text (addEvent msg cm) = msg_text cm"
  by (auto simp: addEvent_def Let_def eventSummaries_def split: option.splits)

lemma mentions_addEvent: "mentions (addEvent msg cm) = mentions cm"
  by (auto simp: addEvent_def Let_def split: option.splits)

text \<open>
  C8, as amended. For an inbound message of type \<open>text\<close> with non-empty \<open>Content\<close> whose
  \<open>Event\<close> is absent or is none of \<open>subscribe\<close>, \<open>unsubscribe\<close>, \<open>enter_agent\<close>, the
  translated text is the \<open>Content\<close>, unchanged. When the \<open>Content\<close> has no \<open>@\<close> token there
  is no mentions list; when it has one, the mentions list starts with the leftmost token.
  Whether later tokens are listed is not part of this statement.
\<close>

theorem inbound_text_verbatim_first_mention:
  assumes "MsgType msg = str ''text''" and "Content msg = Some c" and "c \<noteq> []"
    and "Event msg = None \<or> (\<exists>e. Event msg = Some e \<and> e \<notin> set eventSummaries)"
  shows "msg_text (fromWeComMessage msg) = Some c \<and>
         (case extractMentionedUsers c of
            [] \<Rightarrow> mentions (fromWeComMessage msg) = None
          | u # us \<Rightarrow>
              (\<exists>ms. mentions (fromWeComMessage msg) =
                      Some (\<lparr>userId = u, mention_name = u\<rparr> # ms)))"
proof -
  have t: "msg_text (fromWeComMessage msg) = msg_text (addContent msg (baseMessage msg))"
    unfolding fromWeComMessage_def using assms(4) by (rule msg_text_addEvent)
  have m: "mentions (fromWeComMessage msg) = mentions (addContent msg (baseMessage msg))"
    unfolding fromWeComMessage_def by (rule mentions_addEvent)
  show ?thesis
    unfolding t m using assms(1-3)
    by (auto simp: addContent_def baseMessage_def firstMention_extract split: list.splits)
qed

text \<open>The amended C8 at the text \<open>@zhangsan @lisi hi\<close> with no event.\<close>

theorem inbound_text_verbatim_first_mention_witness:
  "msg_text (fromWeComMessage (inboundText (str ''@zhangsan @lisi hi'') None))
     = Some (str ''@zhangsan @lisi hi'')
   \<and> (\<exists>ms. mentions (fromWeComMessage (inboundText (str ''@zhangsan @lisi hi'') None))
         = Some (\<lparr>userId = str ''zhangsan'', mention_name = str ''zhangsan''\<rparr> # ms))"
  using inbound_text_verbatim_first_mention
    [of "inboundText (str ''@zhangsan @lisi hi'') None" "str ''@zhangsan @lisi hi''"]
  by (simp add: inboundText_def str_def isWordChar_def)

text \<open>
  C8 as stated fails: a \<open>text\<close> message with \<open>Content\<close> \<open>hi\<close> and \<open>Event\<close> \<open>subscribe\<close> is
  translated to the summary U+7528 U+6237 U+5173 U+6CE8 U+4E86 U+5E94 U+7528, not to \<open>hi\<close>.
\<close>

theorem inbound_text_event_overrides:
  "msg_text (fromWeComMessage (inboundText (str ''hi'') (Some (str ''subscribe''))))
     = Some [0x7528, 0x6237, 0x5173, 0x6CE8, 0x4E86, 0x5E94, 0x7528]
   \<and> msg_text (fromWeComMessage (inboundText (str ''hi'') (Some (str ''subscribe''))))
       \<noteq> Some (str ''hi'')"
  by (simp add: fromWeComMessage_def addEvent_def addContent_def baseMessage_def
        inboundText_def str_def isWordChar_def)

text \<open>
  The inbound translation lists the first \<open>@\<close> token only, where \<open>extractMentionedUsers\<close>
  of the same class finds both.
\<close>

lemma inbound_mentions_first_only:
  "mentions (fromWeComMessage (inboundText (str ''@zhangsan @lisi hi'') None))
     = Some [\<lparr>userId = str ''zhangsan'', mention_name = str ''zhangsan''\<rparr>]
   \<and> extractMentionedUsers (str ''@zhangsan @lisi hi'') = [str ''zhangsan'', str ''lisi'']"
  by (simp add: fromWeComMessage_def addEvent_def addContent_def baseMessage_def
        inboundText_def str_def isWordChar_def)

lemma createMediaMessage_recipients:
  "touser (createMediaMessage a m tu tp) = tu \<and>
   toparty (createMediaMessage a m tu tp) = tp \<and>
   totag (createMediaMessage a m tu tp) = None"
  by (simp add: createMediaMessage_def Let_def split: prod.splits)

text \<open>
  C9. The envelope of \<open>toWeComMessage\<close>, with or without media, has \<open>touser\<close> set to the
  peer's id and nothing else for a \<open>dm\<close> peer, \<open>toparty\<close> set to the peer's id and nothing
  else for a \<open>group\<close> peer; so exactly one of the three recipient fields is set.
\<close>

theorem outbound_exactly_one_recipient:
  "(touser (toWeComMessage a mp msg), toparty (toWeComMessage a mp msg),
    totag (toWeComMessage a mp msg))
     = (case kind (peer msg) of
          Dm \<Rightarrow> (Some (peer_id (peer msg)), None, None)
        | Group \<Rightarrow> (None, Some (peer_id (peer msg)), None))
   \<and> length (filter (\<lambda>r. r \<noteq> None)
        [touser (toWeComMessage a mp msg), toparty (toWeComMessage a mp msg),
         totag (toWeComMessage a mp msg)]) = 1"
  by (cases "kind (peer msg)")
     (simp_all add: toWeComMessage_def Let_def createMediaMessage_recipients
        split: option.splits list.splits)

lemma peer_addContent: "peer (addContent msg cm) = peer cm"
  by (simp add: addContent_def mediaOf_def split: option.splits)

lemma peer_addEvent: "peer (addEvent msg cm) = peer cm"
  by (simp add: addEvent_def Let_def split: option.splits)

text \<open>
  C10. Whatever the inbound message, its translation has a peer of kind \<open>dm\<close> whose id
  and name are both \<open>FromUserName\<close>.
\<close>

theorem inbound_peer_always_dm:
  "peer (fromWeComMessage msg) =
     \<lparr>kind = Dm, peer_id = FromUserName msg, peer_name = FromUserName msg\<rparr>"
  by (simp add: fromWeComMessage_def peer_addContent peer_addEvent baseMessage_def)

section \<open>Properties of the API client\<close>

text \<open>\<open>request\<close> in the shape of the source: a token error code makes it call
  \<open>refreshAccessToken\<close> before it returns the response.\<close>

lemma request_unfold:
  "request e ep a =
     (case fetch e ep a of
        (Fails m, a1) \<Rightarrow> Some (Inl (Error m), a1)
      | (Responds d, a1) \<Rightarrow>
          if errcode d = 40014 \<or> errcode d = 42001 then
            Option.bind (refreshAccessToken e a1)
              (\<lambda>(res, a2). case res of Inl err \<Rightarrow> Some (Inl err, a2) | Inr u \<Rightarrow> Some (Inr d, a2))
          else Some (Inr d, a1))"
  apply (subst request.simps)
  apply (auto simp: refreshAccessToken_def split: prod.splits http_outcome.splits sum.splits Option.bind_splits)
  done

lemma storeToken_Inr:
  "storeToken e r a = (Inr u, a') \<Longrightarrow>
     errcode r = 0 \<and> truthy (resp_access_token r) \<and>
     a' = a\<lparr>ticks := Suc (ticks a),
            accessToken := Some \<lparr>access_token = the (resp_access_token r),
              expires_in = resp_expires_in r,
              expires_at = clock e (ticks a) + (resp_expires_in r - 300) * 1000\<rparr>\<rparr>"
  by (auto simp: storeToken_def now_def split: if_splits)

lemma request_GetToken_Inr:
  assumes "request e GetToken a = Some (Inr d, a')"
    and "errcode d \<noteq> 40014" and "errcode d \<noteq> 42001"
  shows "tokenEndpoint e (tokenCalls a) = Responds d \<and> a' = a\<lparr>tokenCalls := Suc (tokenCalls a)\<rparr>"
  using assms
  apply (subst (asm) request_unfold)
  apply (auto split: http_outcome.splits if_splits sum.splits Option.bind_splits)
  done

lemma refresh_success:
  assumes "refreshAccessToken e a = Some (Inr u, a')"
  shows "\<exists>r. tokenEndpoint e (tokenCalls a) = Responds r \<and> errcode r = 0 \<and>
           truthy (resp_access_token r) \<and>
           a' = a\<lparr>tokenCalls := Suc (tokenCalls a), ticks := Suc (ticks a),
                  accessToken := Some \<lparr>access_token = the (resp_access_token r),
                    expires_in = resp_expires_in r,
                    expires_at = clock e (ticks a) + (resp_expires_in r - 300) * 1000\<rparr>\<rparr>"
proof -
  from assms obtain r a1 where
    rq: "request e GetToken a = Some (Inr r, a1)" and st: "storeToken e r a1 = (Inr u, a')"
    by (auto simp: refreshAccessToken_def split: if_splits Option.bind_splits sum.splits)
  from storeToken_Inr [OF st] have z: "errcode r = 0" and tr: "truthy (resp_access_token r)"
    and a': "a' = a1\<lparr>ticks := Suc (ticks a1),
            accessToken := Some \<lparr>access_token = the (resp_access_token r),
              expires_in = resp_expires_in r,
              expires_at = clock e (ticks a1) + (resp_expires_in r - 300) * 1000\<rparr>\<rparr>"
    by auto
  from request_GetToken_Inr [OF rq] z
  have "tokenEndpoint e (tokenCalls a) = Responds r" and "a1 = a\<lparr>tokenCalls := Suc (tokenCalls a)\<rparr>"
    by auto
  with z tr a' show ?thesis by auto
qed

lemma getAccessToken_cached:
  "accessToken a = Some t \<Longrightarrow>
   getAccessToken e a =
     (if clock e (ticks a) \<ge> expires_at t
      then Option.bind (refreshAccessToken e (a\<lparr>ticks := Suc (ticks a)\<rparr>))
             (\<lambda>(res, a1). case res of
                 Inl err \<Rightarrow> Some (Inl err, a1)
               | Inr u \<Rightarrow> Some (case accessToken a1 of
                      None \<Rightarrow> (Inl (Error [0x65E0, 0x6CD5, 0x83B7, 0x53D6, 0x8BBF, 0x95EE, 0x4EE4, 0x724C]), a1)
                    | Some t' \<Rightarrow> (Inr (access_token t'), a1)))
      else Some (Inr (access_token t), a\<lparr>ticks := Suc (ticks a)\<rparr>))"
  by (simp add: getAccessToken_def now_def Let_def)

lemma storeToken_sendCalls: "sendCalls (snd (storeToken e r a)) = sendCalls a"
  by (simp add: storeToken_def now_def)

lemma fetch_sendCalls:
  "sendCalls (snd (fetch e ep a)) = sendCalls a + (case ep of GetToken \<Rightarrow> 0 | MessageSend \<Rightarrow> 1)"
  by (cases ep) simp_all

lemma request_sendCalls:
  "request e ep a = Some y \<Longrightarrow>
   sendCalls (snd y) = sendCalls a + (case ep of GetToken \<Rightarrow> 0 | MessageSend \<Rightarrow> 1)"
proof (induction rule: request.raw_induct [rotated 1, consumes 1])
  case (1 rq e ep a y)
  obtain out a1 where f: "fetch e ep a = (out, a1)" by force
  have s1: "sendCalls a1 = sendCalls a + (case ep of GetToken \<Rightarrow> 0 | MessageSend \<Rightarrow> 1)"
    using fetch_sendCalls [of e ep a] f by simp
  show ?case
  proof (cases out)
    case (Fails m)
    with 1(2) f s1 show ?thesis by auto
  next
    case (Responds d)
    show ?thesis
    proof (cases "(errcode d = 40014 \<or> errcode d = 42001) \<and> hasCredentials (config e)")
      case False
      with 1(2) f s1 Responds show ?thesis by (auto split: if_splits)
    next
      case True
      with 1(2) f Responds obtain res a2 where
        rq: "rq e GetToken a1 = Some (res, a2)" and
        y: "(case res of Inl err \<Rightarrow> Some (Inl err, a2)
             | Inr r \<Rightarrow> (case storeToken e r a2 of
                           (Inl err, a3) \<Rightarrow> Some (Inl err, a3)
                         | (Inr u, a3) \<Rightarrow> Some (Inr d, a3))) = Some y"
        by (auto split: Option.bind_splits)
      from 1(1) [OF rq] have s2: "sendCalls a2 = sendCalls a1" by simp
      show ?thesis
      proof (cases res)
        case (Inl err)
        with y s1 s2 show ?thesis by auto
      next
        case (Inr r)
        obtain q a3 where st: "storeToken e r a2 = (q, a3)" by force
        with storeToken_sendCalls [of e r a2] have "sendCalls a3 = sendCalls a2" by simp
        with y Inr st s1 s2 show ?thesis by (cases q) auto
      qed
    qed
  qed
qed

lemma refresh_sendCalls:
  "refreshAccessToken e a = Some (res, a') \<Longrightarrow> sendCalls a' = sendCalls a"
  using request_sendCalls [of e GetToken a] storeToken_sendCalls
  by (auto simp: refreshAccessToken_def split: if_splits Option.bind_splits sum.splits)
     (metis snd_conv)

lemma getAccessToken_sendCalls:
  "getAccessToken e a = Some (res, a') \<Longrightarrow> sendCalls a' = sendCalls a"
  by (auto simp: getAccessToken_def now_def Let_def
        split: option.splits if_splits Option.bind_splits sum.splits dest!: refresh_sendCalls)

lemma sendMessage_sendCalls:
  "sendMessage e p a = Some (Inr r, a') \<Longrightarrow> sendCalls a' = Suc (sendCalls a)"
  using request_sendCalls [of e MessageSend]
  by (auto simp: sendMessage_def split: Option.bind_splits sum.splits dest!: getAccessToken_sendCalls)

section \<open>Properties of the sender\<close>

subsection \<open>The retry counter along a call\<close>

lemma counted_caught: "counted s (caught m out) = counted s out"
  by (cases out; cases "fst out") (auto simp: counted_def)

lemma slept_caught: "slept (snd (caught m out)) = slept (snd out)"
  by (cases out; cases "fst out") auto

lemma succeed_success: "success (fst (succeed e r a))"
  by (simp add: succeed_def Let_def split: prod.splits)

lemma send_retry_counter:
  "(\<forall>out. send e s m = Some out \<longrightarrow> length (slept s) \<le> length (slept (snd out)) \<and> counted s out)"
  "(\<forall>out. retrySend e s m err = Some out \<longrightarrow>
       length (slept s) < length (slept (snd out)) \<and> counted s out)"
proof (induction e s m and e s m err rule: send_retrySend.induct)
  case (1 e s message)
  show ?case
  proof (intro allI impI)
    fix out assume out: "send e s message = Some out"
    let ?p = "toWeComMessage (case agentId (config e) of None \<Rightarrow> 0 | Some n \<Rightarrow> n)
                (messagePrefix (config e)) message"
    from out obtain q a1 where sm: "sendMessage e ?p (api s) = Some (q, a1)"
      by (subst (asm) send.simps) (auto split: option.splits)
    show "length (slept s) \<le> length (slept (snd out)) \<and> counted s out"
    proof (cases q)
      case (Inl x)
      with out sm show ?thesis
        by (subst (asm) send.simps) (auto simp: counted_def)
    next
      case (Inr response)
      show ?thesis
      proof (cases "errcode response = 0")
        case True
        with out sm Inr show ?thesis
          using succeed_success [of e response a1]
          by (subst (asm) send.simps) (auto simp: counted_def split: prod.splits)
      next
        case nz: False
        show ?thesis
        proof (cases "shouldRetry (config e) (s\<lparr>api := a1\<rparr>) (errcode response)")
          case False
          with out sm Inr nz show ?thesis
            by (subst (asm) send.simps) (auto simp: counted_def)
        next
          case True
          let ?err = "newWeComSendError (errmsg response) (errcode response) message"
          from out sm Inr nz True obtain out' where
            r: "retrySend e (s\<lparr>api := a1\<rparr>) message ?err = Some out'" and o: "out = caught message out'"
            by (subst (asm) send.simps) auto
          from "1.IH" [OF sm refl Inr nz True] r
          have l: "length (slept s) < length (slept (snd out'))"
            and c: "counted (s\<lparr>api := a1\<rparr>) out'"
            by auto
          from c have "counted s out'"
            by (cases out'; cases "fst out'") (auto simp: counted_def)
          with l o show ?thesis by (simp add: counted_caught slept_caught)
        qed
      qed
    qed
  qed
next
  case (2 e s message err)
  let ?s2 = "s\<lparr>retryCount := Suc (retryCount s),
               slept := slept s @ [min (1000 * 2 ^ Suc (retryCount s)) 10000]\<rparr>"
  have up: "\<And>out s3. length (slept ?s2) \<le> length (slept (snd out)) \<and> counted s3 out \<Longrightarrow>
      retryCount s3 = Suc (retryCount s) \<Longrightarrow> slept s3 = slept ?s2 \<Longrightarrow>
      length (slept s) < length (slept (snd out)) \<and> counted s out"
    by (auto simp: counted_def split: prod.splits sum.splits)
  show ?case
  proof (intro allI impI)
    fix out assume out: "retrySend e s message err = Some out"
    show "length (slept s) < length (slept (snd out)) \<and> counted s out"
    proof (cases "errorCode err = 42001 \<or> errorCode err = 40014")
      case False
      with out have "send e ?s2 message = Some out"
        by (subst (asm) retrySend.simps) (simp add: Let_def)
      moreover from "2.IH"(2) [OF refl refl refl False] have
        "\<forall>out. send e ?s2 message = Some out \<longrightarrow>
           length (slept ?s2) \<le> length (slept (snd out)) \<and> counted ?s2 out"
        by (simp del: split_paired_All)
      ultimately have
        "length (slept ?s2) \<le> length (slept (snd out)) \<and> counted ?s2 out" by blast
      then show ?thesis by (rule up) simp_all
    next
      case True
      with out obtain q a1 where rf: "refreshAccessToken e (api ?s2) = Some (q, a1)"
        by (subst (asm) retrySend.simps) (auto simp: Let_def split: option.splits)
      show ?thesis
      proof (cases q)
        case (Inl x)
        with out True rf show ?thesis
          by (subst (asm) retrySend.simps) (auto simp: Let_def counted_def)
      next
        case (Inr u)
        with out True rf have "send e (?s2\<lparr>api := a1\<rparr>) message = Some out"
          by (subst (asm) retrySend.simps) (simp add: Let_def)
        moreover from "2.IH"(1) [OF refl refl refl True] rf Inr have
          "\<forall>out. send e (?s2\<lparr>api := a1\<rparr>) message = Some out \<longrightarrow>
             length (slept ?s2) \<le> length (slept (snd out)) \<and> counted (?s2\<lparr>api := a1\<rparr>) out"
          by (simp del: split_paired_All)
        ultimately have
          "length (slept ?s2) \<le> length (slept (snd out)) \<and> counted (?s2\<lparr>api := a1\<rparr>) out"
          by blast
        then show ?thesis by (rule up) simp_all
      qed
    qed
  qed
qed

subsection \<open>Retries until the budget is used up\<close>

lemma healthy_refresh:
  assumes "tokenEndpointHealthy e"
  shows "\<exists>a'. refreshAccessToken e a = Some (Inr (), a') \<and> sendCalls a' = sendCalls a \<and>
           accessToken a' \<noteq> None"
proof -
  from assms obtain r where r: "tokenEndpoint e (tokenCalls a) = Responds r" "errcode r = 0"
    "truthy (resp_access_token r)" and c: "hasCredentials (config e)"
    unfolding tokenEndpointHealthy_def by blast
  have "request e GetToken a = Some (Inr r, a\<lparr>tokenCalls := Suc (tokenCalls a)\<rparr>)"
    using r by (subst request_unfold) simp
  then show ?thesis using r c
    by (simp add: refreshAccessToken_def storeToken_def now_def)
qed

lemma healthy_getAccessToken:
  assumes "tokenEndpointHealthy e"
  shows "\<exists>tok a'. getAccessToken e a = Some (Inr tok, a') \<and> sendCalls a' = sendCalls a"
proof -
  have rf: "\<And>b. \<exists>tok a'. Option.bind (refreshAccessToken e b)
                      (\<lambda>(res, a1). case res of
                          Inl err \<Rightarrow> Some (Inl err, a1)
                        | Inr u \<Rightarrow> Some (case accessToken a1 of
                      None \<Rightarrow> (Inl (Error [0x65E0, 0x6CD5, 0x83B7, 0x53D6, 0x8BBF, 0x95EE, 0x4EE4, 0x724C]), a1)
                    | Some t \<Rightarrow> (Inr (access_token t), a1))) = Some (Inr tok, a') \<and> sendCalls a' = sendCalls b"
  proof -
    fix b
    from healthy_refresh [OF assms, of b] obtain a' where
      "refreshAccessToken e b = Some (Inr (), a')" "sendCalls a' = sendCalls b" "accessToken a' \<noteq> None"
      by blast
    then show "?thesis b" by (cases "accessToken a'") auto
  qed
  show ?thesis
  proof (cases "accessToken a")
    case None
    with rf [of a] show ?thesis by (simp add: getAccessToken_def Let_def)
  next
    case (Some t)
    show ?thesis
    proof (cases "clock e (ticks a) \<ge> expires_at t")
      case True
      with Some rf [of "a\<lparr>ticks := Suc (ticks a)\<rparr>"] show ?thesis
        by (simp add: getAccessToken_def Let_def now_def)
    next
      case False
      with Some show ?thesis by (simp add: getAccessToken_def Let_def now_def)
    qed
  qed
qed

lemma healthy_sendMessage:
  assumes "tokenEndpointHealthy e" and "sendEndpoint e (sendCalls a) = Responds r"
  shows "\<exists>a'. sendMessage e p a = Some (Inr r, a') \<and> sendCalls a' = Suc (sendCalls a)"
proof -
  from healthy_getAccessToken [OF assms(1), of a] obtain tok a0 where
    g: "getAccessToken e a = Some (Inr tok, a0)" and s0: "sendCalls a0 = sendCalls a" by blast
  let ?a1 = "a0\<lparr>sendCalls := Suc (sendCalls a0)\<rparr>"
  from healthy_refresh [OF assms(1), of ?a1] obtain a2 where
    rf: "refreshAccessToken e ?a1 = Some (Inr (), a2)" "sendCalls a2 = sendCalls ?a1" by blast
  have "\<exists>a'. request e MessageSend a0 = Some (Inr r, a') \<and> sendCalls a' = Suc (sendCalls a0)"
    using assms(2) s0 rf by (subst request_unfold) simp
  with g s0 show ?thesis by (auto simp: sendMessage_def)
qed

lemma retryable_nonzero: "c \<in> set retryableErrors \<Longrightarrow> c \<noteq> 0"
  by (auto simp: retryableErrors_def)

lemma send_exhausts:
  assumes h: "tokenEndpointHealthy e" and r: "alwaysRetryable e"
  shows "nat (maxRetriesOrDefault (config e)) - retryCount s = k \<Longrightarrow>
         \<exists>r s'. sendEndpoint e (sendCalls (api s) + k) = Responds r \<and>
            send e s m = Some (Inl (SendError (newWeComSendError (errmsg r) (errcode r) m)), s') \<and>
            retryCount s' = retryCount s + k \<and>
            sendCalls (api s') = sendCalls (api s) + k + 1 \<and>
            length (slept s') = length (slept s) + k"
proof (induction k arbitrary: s)
  case 0
  from r obtain d where d: "sendEndpoint e (sendCalls (api s)) = Responds d"
    "errcode d \<in> set retryableErrors" unfolding alwaysRetryable_def by blast
  from healthy_sendMessage [OF h d(1)] obtain a1 where
    sm: "\<And>p. \<exists>a1. sendMessage e p (api s) = Some (Inr d, a1) \<and> sendCalls a1 = Suc (sendCalls (api s))"
    by blast
  let ?p = "toWeComMessage (case agentId (config e) of None \<Rightarrow> 0 | Some n \<Rightarrow> n)
                (messagePrefix (config e)) m"
  from sm [of ?p] obtain a1 where a1: "sendMessage e ?p (api s) = Some (Inr d, a1)"
    "sendCalls a1 = Suc (sendCalls (api s))" by blast
  from 0 have "\<not> shouldRetry (config e) (s\<lparr>api := a1\<rparr>) (errcode d)"
    by (auto simp: shouldRetry_def)
  with a1 d retryable_nonzero [OF d(2)] show ?case
    by (subst send.simps) auto
next
  case (Suc k)
  from r obtain d where d: "sendEndpoint e (sendCalls (api s)) = Responds d"
    "errcode d \<in> set retryableErrors" unfolding alwaysRetryable_def by blast
  let ?p = "toWeComMessage (case agentId (config e) of None \<Rightarrow> 0 | Some n \<Rightarrow> n)
                (messagePrefix (config e)) m"
  from healthy_sendMessage [OF h d(1), of ?p] obtain a1 where a1:
    "sendMessage e ?p (api s) = Some (Inr d, a1)" "sendCalls a1 = Suc (sendCalls (api s))" by blast
  from Suc.prems have sr: "shouldRetry (config e) (s\<lparr>api := a1\<rparr>) (errcode d)"
    using d(2) by (auto simp: shouldRetry_def)
  let ?err = "newWeComSendError (errmsg d) (errcode d) m"
  let ?s2 = "s\<lparr>api := a1, retryCount := Suc (retryCount s),
               slept := slept s @ [min (1000 * 2 ^ Suc (retryCount s)) 10000]\<rparr>"
  from healthy_refresh [OF h, of a1] obtain a2 where a2:
    "refreshAccessToken e a1 = Some (Inr (), a2)" "sendCalls a2 = sendCalls a1" by blast
  define s3 where "s3 = (if errcode d = 42001 \<or> errcode d = 40014 then ?s2\<lparr>api := a2\<rparr> else ?s2)"
  have rs: "retrySend e (s\<lparr>api := a1\<rparr>) m ?err = send e s3 m"
    using a2 by (subst retrySend.simps) (simp add: Let_def s3_def newWeComSendError_def)
  have k: "nat (maxRetriesOrDefault (config e)) - retryCount s3 = k"
    using Suc.prems by (auto simp: s3_def)
  have sc: "sendCalls (api s3) = Suc (sendCalls (api s))" "retryCount s3 = Suc (retryCount s)"
    "length (slept s3) = Suc (length (slept s))"
    using a1 a2 by (simp_all add: s3_def)
  from Suc.IH [OF k] obtain r' s' where ih:
    "sendEndpoint e (sendCalls (api s3) + k) = Responds r'"
    "send e s3 m = Some (Inl (SendError (newWeComSendError (errmsg r') (errcode r') m)), s')"
    "retryCount s' = retryCount s3 + k"
    "sendCalls (api s') = sendCalls (api s3) + k + 1"
    "length (slept s') = length (slept s3) + k" by blast
  have "send e s m = Some (Inl (SendError (newWeComSendError (errmsg r') (errcode r') m)), s')"
    using a1 sr retryable_nonzero [OF d(2)] rs ih(2) by (subst send.simps) simp
  with ih sc show ?case by auto
qed

lemma healthy_exampleEnv: "tokenEndpointHealthy (exampleEnv r)"
  by (simp add: tokenEndpointHealthy_def exampleEnv_def exampleConfig_def hasCredentials_def
        goodToken_def str_def)

lemma retryable_exampleEnv:
  "c \<in> set retryableErrors \<Longrightarrow> alwaysRetryable (exampleEnv (vendorError c m))"
  by (simp add: alwaysRetryable_def exampleEnv_def vendorError_def)

lemma maxRetries_exampleEnv: "maxRetriesOrDefault (config (exampleEnv r)) = 3"
  by (simp add: maxRetriesOrDefault_def exampleEnv_def exampleConfig_def)

text \<open>
  C1, as amended. With credentials configured and a token endpoint that always grants a
  token, a sender whose retry counter is zero, and a send endpoint that answers every
  attempt with a retryable error code: \<open>send\<close> makes one attempt and then exactly
  \<open>maxRetries\<close> retries (\<open>config.maxRetries || 3\<close>; each retry waits one delay and makes
  one more attempt), and then throws a \<open>WeComSendError\<close> made from the last response: it
  carries the vendor code and message, and \<open>isRecoverable\<close> is computed from the code.
  The failure is a thrown error (\<open>Inl\<close>), not a returned result.
\<close>

theorem retries_exhausted_then_throws:
  assumes "tokenEndpointHealthy e" and "alwaysRetryable e" and "retryCount s = 0"
  shows "\<exists>r s'. sendEndpoint e (sendCalls (api s) + nat (maxRetriesOrDefault (config e))) = Responds r \<and>
            send e s m = Some (Inl (SendError (newWeComSendError (errmsg r) (errcode r) m)), s') \<and>
            errorCode (newWeComSendError (errmsg r) (errcode r) m) = errcode r \<and>
            isRecoverable (newWeComSendError (errmsg r) (errcode r) m)
              = (errcode r \<in> {42001, 40014, 45033}) \<and>
            length (slept s') = length (slept s) + nat (maxRetriesOrDefault (config e)) \<and>
            sendCalls (api s') = sendCalls (api s) + nat (maxRetriesOrDefault (config e)) + 1 \<and>
            retryCount s' = nat (maxRetriesOrDefault (config e))"
proof -
  have "nat (maxRetriesOrDefault (config e)) - retryCount s = nat (maxRetriesOrDefault (config e))"
    using assms(3) by simp
  from send_exhausts [OF assms(1,2) this, of m] assms(3) show ?thesis
    by (auto simp: newWeComSendError_def isRecoverable_def)
qed

text \<open>The amended C1 at the example environment answering 45009, with \<open>maxRetries = 3\<close>.\<close>

theorem retries_exhausted_then_throws_witness:
  "\<exists>s'. send (exampleEnv (vendorError 45009 ''api freq out of limit'')) freshSender
            (exampleMessage ''hi'')
          = Some (Inl (SendError (newWeComSendError (str ''api freq out of limit'') 45009
                (exampleMessage ''hi''))), s') \<and>
        length (slept s') = 3 \<and> sendCalls (api s') = 4 \<and> retryCount s' = 3"
proof -
  let ?e = "exampleEnv (vendorError 45009 ''api freq out of limit'')"
  have h: "tokenEndpointHealthy ?e" by (rule healthy_exampleEnv)
  have r: "alwaysRetryable ?e" by (rule retryable_exampleEnv) (simp add: retryableErrors_def)
  have z: "retryCount freshSender = 0" by (simp add: freshSender_def)
  from retries_exhausted_then_throws [OF h r z, of "exampleMessage ''hi''"]
  show ?thesis
    by (simp add: maxRetries_exampleEnv freshSender_def freshClient_def)
       (auto simp: exampleEnv_def vendorError_def)
qed

text \<open>
  C1 as stated fails: at the same input the outcome of \<open>send\<close> is a thrown
  \<open>WeComSendError\<close>, not a returned result with \<open>success: false\<close>.
\<close>

theorem exhausted_send_does_not_return:
  "map_option fst (send (exampleEnv (vendorError 45009 ''api freq out of limit'')) freshSender
            (exampleMessage ''hi''))
     = Some (Inl (SendError (newWeComSendError (str ''api freq out of limit'') 45009
                (exampleMessage ''hi''))))"
proof -
  let ?e = "exampleEnv (vendorError 45009 ''api freq out of limit'')"
  have h: "tokenEndpointHealthy ?e" by (rule healthy_exampleEnv)
  have r: "alwaysRetryable ?e" by (rule retryable_exampleEnv) (simp add: retryableErrors_def)
  from send_exhausts [OF h r refl, of freshSender "exampleMessage ''hi''"]
  show ?thesis by (auto simp: exampleEnv_def vendorError_def)
qed

subsection \<open>Which codes are retried\<close>





subsection \<open>The counter over a sequence of sends\<close>

lemma send_counted:
  "send e s m = Some (res, s') \<Longrightarrow>
   length (slept s) \<le> length (slept s') \<and> counted s (res, s')"
  using send_retry_counter(1) [of e s m] by auto

lemma sendAll_counter:
  "sendAll e s ms = Some (rs, s') \<Longrightarrow>
   length (slept s) \<le> length (slept s') \<and>
   ((\<forall>r \<in> set rs. isl r) \<longrightarrow>
      retryCount s' = retryCount s + (length (slept s') - length (slept s))) \<and>
   (rs \<noteq> [] \<and> \<not> isl (last rs) \<longrightarrow> retryCount s' = 0)"
proof (induction ms arbitrary: s rs)
  case Nil
  then show ?case by simp
next
  case (Cons m ms)
  from Cons.prems obtain r s1 rs' where
    s1: "send e s m = Some (r, s1)" and rest: "sendAll e s1 ms = Some (rs', s')" and rs: "rs = r # rs'"
    by (auto split: option.splits)
  from send_counted [OF s1] have l1: "length (slept s) \<le> length (slept s1)"
    and c1: "counted s (r, s1)" by auto
  from Cons.IH [OF rest] have l2: "length (slept s1) \<le> length (slept s')"
    and acc: "(\<forall>r \<in> set rs'. isl r) \<longrightarrow>
        retryCount s' = retryCount s1 + (length (slept s') - length (slept s1))"
    and zero: "rs' \<noteq> [] \<and> \<not> isl (last rs') \<longrightarrow> retryCount s' = 0" by auto
  have nil: "rs' = [] \<Longrightarrow> s' = s1" using rest by (cases ms) (auto split: option.splits)
  have a: "retryCount s' = retryCount s + (length (slept s') - length (slept s))"
    if "\<forall>r \<in> set rs. isl r"
  proof -
    from that rs have "isl r" "\<forall>r \<in> set rs'. isl r" by auto
    with c1 acc l1 l2 show ?thesis by (cases r) (auto simp: counted_def)
  qed
  have z: "retryCount s' = 0" if "rs \<noteq> [] \<and> \<not> isl (last rs)"
  proof (cases "rs' = []")
    case True
    with that rs c1 nil show ?thesis by (cases r) (auto simp: counted_def)
  next
    case False
    with that rs zero show ?thesis by auto
  qed
  from l1 l2 a z show ?case by auto
qed

lemma succeed_sendCalls: "sendCalls (snd (succeed e r a)) = sendCalls a"
  by (simp add: succeed_def now_def Let_def split: prod.splits)

lemma request_MessageSend_Inr:
  "request e MessageSend a = Some (Inr d, a') \<Longrightarrow> sendEndpoint e (sendCalls a) = Responds d"
  by (subst (asm) request_unfold)
     (auto split: http_outcome.splits if_splits Option.bind_splits sum.splits)

lemma sendMessage_response:
  assumes "sendMessage e p a = Some (Inr d, a')"
  shows "sendEndpoint e (sendCalls a) = Responds d \<and> sendCalls a' = Suc (sendCalls a)"
proof -
  from assms obtain tok a0 where g: "getAccessToken e a = Some (Inr tok, a0)"
    and rq: "request e MessageSend a0 = Some (Inr d, a')"
    by (auto simp: sendMessage_def split: Option.bind_splits sum.splits)
  from getAccessToken_sendCalls [OF g] request_MessageSend_Inr [OF rq]
    sendMessage_sendCalls [OF assms] show ?thesis by simp
qed

lemma sendMessage_Inl_sendCalls:
  "sendMessage e p a = Some (q, a') \<Longrightarrow> sendCalls a \<le> sendCalls a'"
  using request_sendCalls [of e MessageSend]
  by (auto simp: sendMessage_def split: Option.bind_splits sum.splits dest!: getAccessToken_sendCalls)

lemma gotCodeZero_caught: "gotCodeZero e s (caught m out) = gotCodeZero e s out"
  by (cases out; cases "fst out") (auto simp: gotCodeZero_def)

lemma gotCodeZero_later:
  "gotCodeZero e s1 out \<Longrightarrow> sendCalls (api s) \<le> sendCalls (api s1) \<Longrightarrow> gotCodeZero e s out"
  by (cases "fst out") (auto simp: gotCodeZero_def intro: le_trans)

lemma send_success_has_code_zero:
  "(\<forall>out. send e s m = Some out \<longrightarrow> gotCodeZero e s out)"
  "(\<forall>out. retrySend e s m err = Some out \<longrightarrow> gotCodeZero e s out)"
proof (induction e s m and e s m err rule: send_retrySend.induct)
  case (1 e s message)
  show ?case
  proof (intro allI impI)
    fix out assume out: "send e s message = Some out"
    let ?p = "toWeComMessage (case agentId (config e) of None \<Rightarrow> 0 | Some n \<Rightarrow> n)
                (messagePrefix (config e)) message"
    from out obtain q a1 where sm: "sendMessage e ?p (api s) = Some (q, a1)"
      by (subst (asm) send.simps) (auto split: option.splits)
    note le = sendMessage_Inl_sendCalls [OF sm]
    show "gotCodeZero e s out"
    proof (cases q)
      case (Inl x)
      with out sm le show ?thesis
        by (subst (asm) send.simps) (auto simp: gotCodeZero_def)
    next
      case (Inr response)
      from sendMessage_response [OF sm [unfolded Inr]] have
        rsp: "sendEndpoint e (sendCalls (api s)) = Responds response"
        and sc: "sendCalls a1 = Suc (sendCalls (api s))" by auto
      show ?thesis
      proof (cases "errcode response = 0")
        case True
        from out sm Inr True have
          o: "out = (Inr (fst (succeed e response a1)),
                     s\<lparr>retryCount := 0, api := snd (succeed e response a1)\<rparr>)"
          by (subst (asm) send.simps) (auto split: prod.splits)
        have "sendCalls (api s) < sendCalls (snd (succeed e response a1))"
          using sc by (simp add: succeed_sendCalls)
        with o rsp True show ?thesis
          by (auto simp: gotCodeZero_def succeed_sendCalls sc)
      next
        case nz: False
        show ?thesis
        proof (cases "shouldRetry (config e) (s\<lparr>api := a1\<rparr>) (errcode response)")
          case False
          with out sm Inr nz le show ?thesis
            by (subst (asm) send.simps) (auto simp: gotCodeZero_def)
        next
          case True
          let ?err = "newWeComSendError (errmsg response) (errcode response) message"
          from out sm Inr nz True obtain out' where
            r: "retrySend e (s\<lparr>api := a1\<rparr>) message ?err = Some out'" and o: "out = caught message out'"
            by (subst (asm) send.simps) auto
          from "1.IH" [OF sm refl Inr nz True] r have "gotCodeZero e (s\<lparr>api := a1\<rparr>) out'"
            by blast
          from gotCodeZero_later [OF this, of s] le have "gotCodeZero e s out'" by simp
          with o show ?thesis by (simp add: gotCodeZero_caught)
        qed
      qed
    qed
  qed
next
  case (2 e s message err)
  let ?s2 = "s\<lparr>retryCount := Suc (retryCount s),
               slept := slept s @ [min (1000 * 2 ^ Suc (retryCount s)) 10000]\<rparr>"
  show ?case
  proof (intro allI impI)
    fix out assume out: "retrySend e s message err = Some out"
    show "gotCodeZero e s out"
    proof (cases "errorCode err = 42001 \<or> errorCode err = 40014")
      case False
      with out have "send e ?s2 message = Some out"
        by (subst (asm) retrySend.simps) (simp add: Let_def)
      moreover from "2.IH"(2) [OF refl refl refl False] have
        "\<forall>out. send e ?s2 message = Some out \<longrightarrow> gotCodeZero e ?s2 out"
        by (simp del: split_paired_All)
      ultimately have "gotCodeZero e ?s2 out" by blast
      from gotCodeZero_later [OF this, of s] show ?thesis by simp
    next
      case True
      with out obtain q a1 where rf: "refreshAccessToken e (api ?s2) = Some (q, a1)"
        by (subst (asm) retrySend.simps) (auto simp: Let_def split: option.splits)
      from refresh_sendCalls [OF rf] have sc: "sendCalls a1 = sendCalls (api s)" by simp
      show ?thesis
      proof (cases q)
        case (Inl x)
        with out True rf sc show ?thesis
          by (subst (asm) retrySend.simps) (auto simp: Let_def gotCodeZero_def)
      next
        case (Inr u)
        with out True rf have "send e (?s2\<lparr>api := a1\<rparr>) message = Some out"
          by (subst (asm) retrySend.simps) (simp add: Let_def)
        moreover from "2.IH"(1) [OF refl refl refl True] rf Inr have
          "\<forall>out. send e (?s2\<lparr>api := a1\<rparr>) message = Some out \<longrightarrow>
             gotCodeZero e (?s2\<lparr>api := a1\<rparr>) out"
          by (simp del: split_paired_All)
        ultimately have "gotCodeZero e (?s2\<lparr>api := a1\<rparr>) out" by blast
        from gotCodeZero_later [OF this, of s] sc show ?thesis by simp
      qed
    qed
  qed
qed

lemma send_code_zero:
  assumes "sendMessage e (toWeComMessage (case agentId (config e) of None \<Rightarrow> 0 | Some n \<Rightarrow> n)
                (messagePrefix (config e)) m) (api s) = Some (Inr r, a1)"
    and "errcode r = 0"
  shows "\<exists>res s'. send e s m = Some (Inr res, s') \<and> success res \<and> retryCount s' = 0 \<and>
           slept s' = slept s \<and> sendCalls (api s') = Suc (sendCalls (api s))"
proof -
  from assms have "send e s m = Some (Inr (fst (succeed e r a1)),
      s\<lparr>retryCount := 0, api := snd (succeed e r a1)\<rparr>)"
    by (subst send.simps) (simp add: split_beta)
  with succeed_success [of e r a1] sendMessage_sendCalls [OF assms(1)] show ?thesis
    by (simp add: succeed_sendCalls)
qed

lemma healthy_recoverEnv: "tokenEndpointHealthy recoverEnv"
  by (simp add: tokenEndpointHealthy_def recoverEnv_def exampleConfig_def hasCredentials_def
        goodToken_def str_def)

text \<open>
  C4. Over any sequence of \<open>send\<close> calls on one sender: as long as no call succeeds, the
  counter at the end is the counter at the start plus one for every retry made in
  between (a new \<open>send\<close> does not reset it); and after a call that succeeded the counter
  is zero. For one \<open>send\<close> from any state of the sender: a response with vendor code 0
  makes it return a success and sets the counter to zero; when it returns a success the
  counter is zero and one of its attempts was answered with code 0; and when it fails
  the counter is the one it started with plus one for every retry it made.
\<close>

theorem retry_counter_per_instance:
  "(sendAll e s ms = Some (rs, s') \<longrightarrow>
      length (slept s) \<le> length (slept s') \<and>
      ((\<forall>r \<in> set rs. isl r) \<longrightarrow>
         retryCount s' = retryCount s + (length (slept s') - length (slept s))) \<and>
      (rs \<noteq> [] \<and> \<not> isl (last rs) \<longrightarrow> retryCount s' = 0))
   \<and> (sendMessage e (toWeComMessage (case agentId (config e) of None \<Rightarrow> 0 | Some n \<Rightarrow> n)
                (messagePrefix (config e)) m) (api s0) = Some (Inr r, a1) \<and> errcode r = 0 \<longrightarrow>
        (\<exists>res s1. send e s0 m = Some (Inr res, s1) \<and> success res \<and> retryCount s1 = 0))
   \<and> (send e s0 m = Some (Inr res, s1) \<longrightarrow>
        retryCount s1 = 0 \<and>
        (\<exists>i r. sendCalls (api s0) \<le> i \<and> i < sendCalls (api s1) \<and>
               sendEndpoint e i = Responds r \<and> errcode r = 0))
   \<and> (send e s0 m = Some (Inl x, s1) \<longrightarrow>
        length (slept s0) \<le> length (slept s1) \<and>
        retryCount s1 = retryCount s0 + (length (slept s1) - length (slept s0)))"
proof -
  have 1: "sendAll e s ms = Some (rs, s') \<longrightarrow>
      length (slept s) \<le> length (slept s') \<and>
      ((\<forall>r \<in> set rs. isl r) \<longrightarrow>
         retryCount s' = retryCount s + (length (slept s') - length (slept s))) \<and>
      (rs \<noteq> [] \<and> \<not> isl (last rs) \<longrightarrow> retryCount s' = 0)"
    using sendAll_counter by blast
  have 2: "sendMessage e (toWeComMessage (case agentId (config e) of None \<Rightarrow> 0 | Some n \<Rightarrow> n)
                (messagePrefix (config e)) m) (api s0) = Some (Inr r, a1) \<and> errcode r = 0 \<longrightarrow>
        (\<exists>res s1. send e s0 m = Some (Inr res, s1) \<and> success res \<and> retryCount s1 = 0)"
    using send_code_zero by blast
  have 3: "send e s0 m = Some (Inr res, s1) \<longrightarrow>
        retryCount s1 = 0 \<and>
        (\<exists>i r. sendCalls (api s0) \<le> i \<and> i < sendCalls (api s1) \<and>
               sendEndpoint e i = Responds r \<and> errcode r = 0)"
  proof
    assume a: "send e s0 m = Some (Inr res, s1)"
    from send_counted [OF a] have "retryCount s1 = 0" by (simp add: counted_def)
    moreover from send_success_has_code_zero(1) [of e s0 m] a
    have "gotCodeZero e s0 (Inr res, s1)" by blast
    ultimately show "retryCount s1 = 0 \<and>
        (\<exists>i r. sendCalls (api s0) \<le> i \<and> i < sendCalls (api s1) \<and>
               sendEndpoint e i = Responds r \<and> errcode r = 0)"
      by (simp add: gotCodeZero_def)
  qed
  have 4: "send e s0 m = Some (Inl x, s1) \<longrightarrow>
        length (slept s0) \<le> length (slept s1) \<and>
        retryCount s1 = retryCount s0 + (length (slept s1) - length (slept s0))"
  proof
    assume a: "send e s0 m = Some (Inl x, s1)"
    from send_counted [OF a] show "length (slept s0) \<le> length (slept s1) \<and>
        retryCount s1 = retryCount s0 + (length (slept s1) - length (slept s0))"
      by (auto simp: counted_def)
  qed
  from 1 2 3 4 show ?thesis by blast
qed

text \<open>
  C4 at the example environments. Answering 45009: the first message uses the three
  retries, and the second message, sent next, finds the counter at 3 and fails after one
  attempt. Answering code 0 to a sender whose counter is 3: success, and the counter is
  zero. Answering 45009 once and code 0 afterwards: one retry, then success, and the
  counter is zero.
\<close>

theorem retry_counter_per_instance_witness:
  "(\<exists>rs s'. sendAll (exampleEnv (vendorError 45009 ''api freq out of limit'')) freshSender
              [exampleMessage ''first'', exampleMessage ''second''] = Some (rs, s') \<and>
           (\<forall>r \<in> set rs. isl r) \<and> length (slept s') = 3 \<and> retryCount s' = 3 \<and>
           sendCalls (api s') = 5)
   \<and> (\<exists>res s1. send (exampleEnv okResponse) (freshSender\<lparr>retryCount := 3\<rparr>)
                  (exampleMessage ''third'') = Some (Inr res, s1) \<and>
                success res \<and> retryCount s1 = 0)
   \<and> (\<exists>res s'. sendAll recoverEnv freshSender [exampleMessage ''hi''] = Some ([Inr res], s') \<and>
                success res \<and> slept s' = [2000] \<and> sendCalls (api s') = 2 \<and> retryCount s' = 0)"
proof -
  let ?e = "exampleEnv (vendorError 45009 ''api freq out of limit'')"
  have h: "tokenEndpointHealthy ?e" by (rule healthy_exampleEnv)
  have r: "alwaysRetryable ?e" by (rule retryable_exampleEnv) (simp add: retryableErrors_def)
  from send_exhausts [OF h r refl, of freshSender "exampleMessage ''first''"]
  obtain x1 s1 where 1: "send ?e freshSender (exampleMessage ''first'') = Some (Inl x1, s1)"
    "retryCount s1 = 3" "sendCalls (api s1) = 4" "length (slept s1) = 3"
    by (auto simp: maxRetries_exampleEnv freshSender_def freshClient_def)
  from send_exhausts [OF h r refl, of s1 "exampleMessage ''second''"] 1
  obtain x2 s2 where 2: "send ?e s1 (exampleMessage ''second'') = Some (Inl x2, s2)"
    "sendCalls (api s2) = 5" "length (slept s2) = 3"
    by (auto simp: maxRetries_exampleEnv)
  from 1 2 have all: "sendAll ?e freshSender [exampleMessage ''first'', exampleMessage ''second'']
      = Some ([Inl x1, Inl x2], s2)" by simp
  from retry_counter_per_instance
    [of ?e freshSender "[exampleMessage ''first'', exampleMessage ''second'']" "[Inl x1, Inl x2]" s2]
    all 2 have "retryCount s2 = 3"
    by (simp add: freshSender_def)
  with all 2 have A: "\<exists>rs s'. sendAll ?e freshSender
              [exampleMessage ''first'', exampleMessage ''second''] = Some (rs, s') \<and>
           (\<forall>r \<in> set rs. isl r) \<and> length (slept s') = 3 \<and> retryCount s' = 3 \<and>
           sendCalls (api s') = 5" by simp

  let ?ok = "exampleEnv okResponse"
  let ?s3 = "freshSender\<lparr>retryCount := 3\<rparr>"
  let ?p = "\<lambda>e m. toWeComMessage (case agentId (config e) of None \<Rightarrow> 0 | Some n \<Rightarrow> n)
                (messagePrefix (config e)) m"
  have "sendEndpoint ?ok (sendCalls (api ?s3)) = Responds okResponse"
    by (simp add: exampleEnv_def)
  from healthy_sendMessage [OF healthy_exampleEnv this, of "?p ?ok (exampleMessage ''third'')"]
  obtain a1 where a1: "sendMessage ?ok (?p ?ok (exampleMessage ''third'')) (api ?s3)
      = Some (Inr okResponse, a1)" by blast
  have z: "errcode okResponse = 0" by (simp add: okResponse_def)
  from retry_counter_per_instance
    [of ?ok _ _ _ _ "exampleMessage ''third''" ?s3 okResponse a1] a1 z
  have B: "\<exists>res s1. send ?ok ?s3 (exampleMessage ''third'') = Some (Inr res, s1) \<and>
                success res \<and> retryCount s1 = 0" by blast

  let ?m = "exampleMessage ''hi''"
  let ?rl = "vendorError 45009 ''api freq out of limit''"
  have "sendEndpoint recoverEnv (sendCalls (api freshSender)) = Responds ?rl"
    by (simp add: recoverEnv_def freshSender_def freshClient_def)
  from healthy_sendMessage [OF healthy_recoverEnv this, of "?p recoverEnv ?m"]
  obtain b1 where b1: "sendMessage recoverEnv (?p recoverEnv ?m) (api freshSender)
      = Some (Inr ?rl, b1)" "sendCalls b1 = Suc (sendCalls (api freshSender))" by blast
  let ?s2 = "freshSender\<lparr>api := b1, retryCount := 1, slept := [2000]\<rparr>"
  have "sendEndpoint recoverEnv (sendCalls (api ?s2)) = Responds okResponse"
    using b1(2) by (simp add: recoverEnv_def freshSender_def freshClient_def)
  from healthy_sendMessage [OF healthy_recoverEnv this, of "?p recoverEnv ?m"]
  obtain b2 where b2: "sendMessage recoverEnv (?p recoverEnv ?m) (api ?s2)
      = Some (Inr okResponse, b2)" by blast
  from send_code_zero [OF b2 z] obtain res s' where second:
    "send recoverEnv ?s2 ?m = Some (Inr res, s')" "success res" "slept s' = [2000]"
    "sendCalls (api s') = 2"
    using b1(2) by (auto simp: freshSender_def freshClient_def)
  have rs: "retrySend recoverEnv (freshSender\<lparr>api := b1\<rparr>) ?m
              (newWeComSendError (errmsg ?rl) (errcode ?rl) ?m) = Some (Inr res, s')"
    using second(1)
    by (subst retrySend.simps)
       (simp add: Let_def newWeComSendError_def vendorError_def freshSender_def)
  have sr: "shouldRetry (config recoverEnv) (freshSender\<lparr>api := b1\<rparr>) (errcode ?rl)"
    by (simp add: shouldRetry_def retryableErrors_def vendorError_def maxRetriesOrDefault_def
          recoverEnv_def exampleConfig_def freshSender_def)
  have first: "send recoverEnv freshSender ?m = Some (Inr res, s')"
    using b1(1) sr rs by (subst send.simps) (simp add: vendorError_def)
  then have all2: "sendAll recoverEnv freshSender [?m] = Some ([Inr res], s')" by simp
  from retry_counter_per_instance [of recoverEnv freshSender "[?m]" "[Inr res]" s'] all2
  have "retryCount s' = 0" by simp
  with all2 second have C: "\<exists>res s'. sendAll recoverEnv freshSender [?m] = Some ([Inr res], s') \<and>
                success res \<and> slept s' = [2000] \<and> sendCalls (api s') = 2 \<and> retryCount s' = 0"
    by blast
  from A B C show ?thesis by blast
qed

subsection \<open>The expiry of a refreshed token\<close>

text \<open>
  C5. When \<open>refreshAccessToken\<close> succeeds, the response \<open>r\<close> of its call to the token
  endpoint has code 0 and a non-empty \<open>access_token\<close>, and the stored token expires at the clock reading taken on
  storing plus \<open>(expires_in - 300) * 1000\<close> milliseconds. With that token in the client,
  \<open>getAccessToken\<close> returns it without a network call while the clock is below this
  value, and goes through \<open>refreshAccessToken\<close> from then on.
\<close>

theorem token_expiry_safety_margin:
  assumes "refreshAccessToken e a = Some (Inr u, a')"
  shows "\<exists>r. tokenEndpoint e (tokenCalls a) = Responds r \<and> errcode r = 0 \<and>
           truthy (resp_access_token r) \<and>
           accessToken a' = Some \<lparr>access_token = the (resp_access_token r),
             expires_in = resp_expires_in r,
             expires_at = clock e (ticks a) + (resp_expires_in r - 300) * 1000\<rparr> \<and>
           (\<forall>b. accessToken b = accessToken a' \<longrightarrow>
              getAccessToken e b =
                (if clock e (ticks b) \<ge> clock e (ticks a) + (resp_expires_in r - 300) * 1000
                 then Option.bind (refreshAccessToken e (b\<lparr>ticks := Suc (ticks b)\<rparr>))
                        (\<lambda>(res, a1). case res of
                            Inl err \<Rightarrow> Some (Inl err, a1)
                          | Inr u \<Rightarrow> Some (case accessToken a1 of
                                None \<Rightarrow> (Inl (Error [0x65E0, 0x6CD5, 0x83B7, 0x53D6, 0x8BBF, 0x95EE, 0x4EE4, 0x724C]), a1)
                              | Some t' \<Rightarrow> (Inr (access_token t'), a1)))
                 else Some (Inr (the (resp_access_token r)), b\<lparr>ticks := Suc (ticks b)\<rparr>)))"
proof -
  from refresh_success [OF assms] obtain r where tr: "truthy (resp_access_token r)" and r:
    "tokenEndpoint e (tokenCalls a) = Responds r" "errcode r = 0"
    "a' = a\<lparr>tokenCalls := Suc (tokenCalls a), ticks := Suc (ticks a),
                  accessToken := Some \<lparr>access_token = the (resp_access_token r),
                    expires_in = resp_expires_in r,
                    expires_at = clock e (ticks a) + (resp_expires_in r - 300) * 1000\<rparr>\<rparr>"
    by blast
  let ?t = "\<lparr>access_token = the (resp_access_token r), expires_in = resp_expires_in r,
             expires_at = clock e (ticks a) + (resp_expires_in r - 300) * 1000\<rparr>"
  from r(3) have t: "accessToken a' = Some ?t" by simp
  have "getAccessToken e b =
                (if clock e (ticks b) \<ge> clock e (ticks a) + (resp_expires_in r - 300) * 1000
                 then Option.bind (refreshAccessToken e (b\<lparr>ticks := Suc (ticks b)\<rparr>))
                        (\<lambda>(res, a1). case res of
                            Inl err \<Rightarrow> Some (Inl err, a1)
                          | Inr u \<Rightarrow> Some (case accessToken a1 of
                                None \<Rightarrow> (Inl (Error [0x65E0, 0x6CD5, 0x83B7, 0x53D6, 0x8BBF, 0x95EE, 0x4EE4, 0x724C]), a1)
                              | Some t' \<Rightarrow> (Inr (access_token t'), a1)))
                 else Some (Inr (the (resp_access_token r)), b\<lparr>ticks := Suc (ticks b)\<rparr>))"
    if "accessToken b = accessToken a'" for b
    using getAccessToken_cached [of b ?t e] that t by simp
  with r(1,2) tr t show ?thesis by blast
qed

text \<open>C5 at the example environment: 7200 seconds granted at 1700000000000.\<close>

theorem token_expiry_safety_margin_witness:
  "\<exists>a'. refreshAccessToken (exampleEnv goodToken) freshClient = Some (Inr (), a') \<and>
         accessToken a' = Some \<lparr>access_token = str ''tok'', expires_in = 7200,
                                 expires_at = 1700006900000\<rparr>"
proof -
  from healthy_refresh [OF healthy_exampleEnv, of goodToken freshClient] obtain a' where
    a': "refreshAccessToken (exampleEnv goodToken) freshClient = Some (Inr (), a')" by blast
  from token_expiry_safety_margin [OF a'] have
    "accessToken a' = Some \<lparr>access_token = str ''tok'', expires_in = 7200,
                                 expires_at = 1700006900000\<rparr>"
    by (auto simp: exampleEnv_def goodToken_def freshClient_def)
  with a' show ?thesis by blast
qed

section \<open>Properties of concurrent calls\<close>

subsection \<open>The two pieces of a call make up getAccessToken\<close>

lemma getAccessToken_refreshThen:
  "getAccessToken e a =
     (case accessToken a of
        None \<Rightarrow> refreshThen e [] a
      | Some t \<Rightarrow> if clock e (ticks a) \<ge> expires_at t
                  then refreshThen e [] (a\<lparr>ticks := Suc (ticks a)\<rparr>)
                  else Some (Inr (access_token t), a\<lparr>ticks := Suc (ticks a)\<rparr>))"
  by (auto simp: getAccessToken_def refreshThen_def now_def Let_def split: option.splits
        intro!: arg_cong2 [where f = Option.bind] ext split: sum.splits)

lemma refreshThen_step:
  assumes "hasCredentials (config e)"
  shows "refreshThen e outer a =
     (case tokenEndpoint e (tokenCalls a) of
        Fails m \<Rightarrow> Some (Inl (Error m), a\<lparr>tokenCalls := Suc (tokenCalls a)\<rparr>)
      | Responds r \<Rightarrow>
          if errcode r = 40014 \<or> errcode r = 42001
          then refreshThen e (r # outer) (a\<lparr>tokenCalls := Suc (tokenCalls a)\<rparr>)
          else Some (unwind e (r # outer) (a\<lparr>tokenCalls := Suc (tokenCalls a)\<rparr>)))"
proof (cases "tokenEndpoint e (tokenCalls a)")
  case (Fails m)
  with assms show ?thesis
    by (simp add: refreshThen_def refreshAccessToken_def) (subst request_unfold, simp)
next
  case (Responds r)
  let ?a1 = "a\<lparr>tokenCalls := Suc (tokenCalls a)\<rparr>"
  show ?thesis
  proof (cases "errcode r = 40014 \<or> errcode r = 42001")
    case False
    with Responds have "request e GetToken a = Some (Inr r, ?a1)"
      by (subst request_unfold) simp
    with assms Responds False show ?thesis
      by (simp add: refreshThen_def refreshAccessToken_def split: prod.splits sum.splits)
  next
    case True
    with Responds have rq: "request e GetToken a =
        Option.bind (refreshAccessToken e ?a1)
          (\<lambda>(res, a2). case res of Inl err \<Rightarrow> Some (Inl err, a2) | Inr u \<Rightarrow> Some (Inr r, a2))"
      by (subst request_unfold) simp
    show ?thesis
    proof (cases "refreshAccessToken e ?a1")
      case None
      with assms Responds True rq show ?thesis
        by (simp add: refreshThen_def refreshAccessToken_def [of e a])
    next
      case (Some y)
      obtain res a2 where y: "y = (res, a2)" by force
      with assms Responds True rq Some show ?thesis
        by (cases res)
           (simp_all add: refreshThen_def refreshAccessToken_def [of e a] split: prod.splits sum.splits)
    qed
  qed
qed

lemma complete_awaiting:
  assumes c: "hasCredentials (config e)"
  shows "complete n e (Awaiting (tokenCalls a) outer, a\<lparr>tokenCalls := Suc (tokenCalls a)\<rparr>) = Some out
         \<Longrightarrow> refreshThen e outer a = Some out"
proof (induction n arbitrary: a outer)
  case 0
  then show ?case by simp
next
  case (Suc n)
  let ?a1 = "a\<lparr>tokenCalls := Suc (tokenCalls a)\<rparr>"
  show ?case
  proof (cases "tokenEndpoint e (tokenCalls a)")
    case (Fails m)
    with Suc.prems show ?thesis
      by (subst refreshThen_step [OF c]) (simp add: getAccessToken_resume_def)
  next
    case (Responds r)
    show ?thesis
    proof (cases "errcode r = 40014 \<or> errcode r = 42001")
      case False
      with Suc.prems Responds show ?thesis
        by (subst refreshThen_step [OF c]) (auto simp: getAccessToken_resume_def split: prod.splits)
    next
      case True
      with Suc.prems Responds c have
        "complete n e (Awaiting (tokenCalls ?a1) (r # outer), ?a1\<lparr>tokenCalls := Suc (tokenCalls ?a1)\<rparr>) = Some out"
        by (simp add: getAccessToken_resume_def refresh_start_def)
      from Suc.IH [OF this] Responds True show ?thesis
        by (subst refreshThen_step [OF c]) simp
    qed
  qed
qed

lemma refreshThen_no_credentials:
  "\<not> hasCredentials (config e) \<Longrightarrow> refreshThen e outer a = Some (Inl missingCredentials, a)"
  by (simp add: refreshThen_def refreshAccessToken_def)

lemma complete_refresh_start:
  "complete n e (refresh_start e outer a) = Some out \<Longrightarrow> refreshThen e outer a = Some out"
  by (cases "hasCredentials (config e)")
     (auto simp: refresh_start_def refreshThen_no_credentials dest: complete_awaiting)

lemma start_complete_is_getAccessToken:
  "complete n e (getAccessToken_start e a) = Some out \<Longrightarrow> getAccessToken e a = Some out"
  by (subst getAccessToken_refreshThen)
     (auto simp: getAccessToken_start_def now_def Let_def split: option.splits if_splits
        dest: complete_refresh_start)

lemma refreshThen_afterRequest:
  "hasCredentials (config e) \<Longrightarrow>
   refreshThen e outer a = map_option (afterRequest e outer) (request e GetToken a)"
  by (cases "request e GetToken a")
     (auto simp: refreshThen_def refreshAccessToken_def split: sum.splits prod.splits)

lemma request_completes:
  "request e ep a = Some y \<Longrightarrow> hasCredentials (config e) \<Longrightarrow> ep = GetToken \<Longrightarrow>
   \<exists>n. complete n e (Awaiting (tokenCalls a) outer, a\<lparr>tokenCalls := Suc (tokenCalls a)\<rparr>)
         = Some (afterRequest e outer y)"
proof (induction arbitrary: outer rule: request.raw_induct [rotated 1, consumes 1])
  case (1 rq e ep a y)
  let ?a1 = "a\<lparr>tokenCalls := Suc (tokenCalls a)\<rparr>"
  note c = "1.prems"(1) and ep = "1.prems"(2)
  show ?case
  proof (cases "tokenEndpoint e (tokenCalls a)")
    case (Fails m)
    with "1.hyps" ep have "y = (Inl (Error m), ?a1)" by simp
    with Fails have "complete (Suc 0) e (Awaiting (tokenCalls a) outer, ?a1) = Some (afterRequest e outer y)"
      by (simp add: getAccessToken_resume_def)
    then show ?thesis by blast
  next
    case (Responds d)
    show ?thesis
    proof (cases "errcode d = 40014 \<or> errcode d = 42001")
      case False
      with "1.hyps" ep Responds have "y = (Inr d, ?a1)" by auto
      with Responds False have
        "complete (Suc 0) e (Awaiting (tokenCalls a) outer, ?a1) = Some (afterRequest e outer y)"
        by (simp add: getAccessToken_resume_def split: prod.splits)
      then show ?thesis by blast
    next
      case True
      with "1.hyps" ep Responds c obtain res a2 where
        rq: "rq e GetToken ?a1 = Some (res, a2)" and
        y: "(case res of Inl err \<Rightarrow> Some (Inl err, a2)
             | Inr r \<Rightarrow> (case storeToken e r a2 of
                           (Inl err, a3) \<Rightarrow> Some (Inl err, a3)
                         | (Inr u, a3) \<Rightarrow> Some (Inr d, a3))) = Some y"
        by (auto split: Option.bind_splits)
      from "1.IH" [OF rq c refl, of "d # outer"] obtain n where
        n: "complete n e (Awaiting (tokenCalls ?a1) (d # outer), ?a1\<lparr>tokenCalls := Suc (tokenCalls ?a1)\<rparr>)
              = Some (afterRequest e (d # outer) (res, a2))" by blast
      have same: "afterRequest e (d # outer) (res, a2) = afterRequest e outer y"
      proof (cases res)
        case (Inl err)
        with y show ?thesis by auto
      next
        case (Inr r)
        obtain q a3 where st: "storeToken e r a2 = (q, a3)" by force
        with y Inr show ?thesis by (cases q) auto
      qed
      from Responds True c n have
        "complete (Suc n) e (Awaiting (tokenCalls a) outer, ?a1) = Some (afterRequest e (d # outer) (res, a2))"
        by (simp add: getAccessToken_resume_def refresh_start_def)
      with same show ?thesis by metis
    qed
  qed
qed

lemma refreshThen_completes:
  "refreshThen e outer a = Some out \<Longrightarrow> \<exists>n. complete n e (refresh_start e outer a) = Some out"
proof (cases "hasCredentials (config e)")
  case False
  assume "refreshThen e outer a = Some out"
  with False have "complete 0 e (refresh_start e outer a) = Some out"
    by (simp add: refreshThen_no_credentials refresh_start_def)
  then show ?thesis by blast
next
  case True
  assume "refreshThen e outer a = Some out"
  with True obtain y where y: "request e GetToken a = Some y" "out = afterRequest e outer y"
    by (auto simp: refreshThen_afterRequest)
  from request_completes [OF y(1) True refl, of outer] y(2) True show ?thesis
    by (simp add: refresh_start_def)
qed

lemma getAccessToken_completes:
  "getAccessToken e a = Some out \<Longrightarrow> \<exists>n. complete n e (getAccessToken_start e a) = Some out"
proof -
  assume g: "getAccessToken e a = Some out"
  show ?thesis
  proof (cases "accessToken a")
    case None
    with g have "refreshThen e [] a = Some out" by (simp add: getAccessToken_refreshThen)
    from refreshThen_completes [OF this] None show ?thesis by (simp add: getAccessToken_start_def)
  next
    case (Some t)
    show ?thesis
    proof (cases "clock e (ticks a) \<ge> expires_at t")
      case True
      with g Some have "refreshThen e [] (a\<lparr>ticks := Suc (ticks a)\<rparr>) = Some out"
        by (simp add: getAccessToken_refreshThen)
      from refreshThen_completes [OF this] Some True show ?thesis
        by (simp add: getAccessToken_start_def now_def)
    next
      case False
      with g Some have "complete 0 e (getAccessToken_start e a) = Some out"
        by (simp add: getAccessToken_refreshThen getAccessToken_start_def now_def)
      then show ?thesis by blast
    qed
  qed
qed

lemma getAccessToken_iff_complete:
  "getAccessToken e a = Some out \<longleftrightarrow> (\<exists>n. complete n e (getAccessToken_start e a) = Some out)"
  using getAccessToken_completes start_complete_is_getAccessToken by blast

subsection \<open>Calls made before any response\<close>

lemma start_needsRefresh:
  assumes "hasCredentials (config e)" and "needsRefresh e a"
  shows "\<exists>a1. getAccessToken_start e a = (Awaiting (tokenCalls a) [], a1) \<and>
           tokenCalls a1 = Suc (tokenCalls a) \<and> accessToken a1 = accessToken a \<and>
           ticks a \<le> ticks a1"
  using assms
  by (auto simp: getAccessToken_start_def refresh_start_def needsRefresh_def now_def
        split: option.splits)

lemma needsRefresh_later:
  "needsRefresh e a \<Longrightarrow> accessToken a1 = accessToken a \<Longrightarrow> ticks a \<le> ticks a1 \<Longrightarrow>
   needsRefresh e a1"
  by (auto simp: needsRefresh_def split: option.splits)

lemma startCalls_each_fetch:
  assumes c: "hasCredentials (config e)"
  shows "needsRefresh e a \<Longrightarrow>
         fst (startCalls e n a) = map (\<lambda>i. Awaiting i []) [tokenCalls a ..< tokenCalls a + n] \<and>
         tokenCalls (snd (startCalls e n a)) = tokenCalls a + n \<and>
         accessToken (snd (startCalls e n a)) = accessToken a"
proof (induction n arbitrary: a)
  case 0
  then show ?case by simp
next
  case (Suc n)
  from start_needsRefresh [OF c Suc.prems] obtain a1 where a1:
    "getAccessToken_start e a = (Awaiting (tokenCalls a) [], a1)"
    "tokenCalls a1 = Suc (tokenCalls a)" "accessToken a1 = accessToken a" "ticks a \<le> ticks a1"
    by blast
  from needsRefresh_later [OF Suc.prems a1(3,4)] have "needsRefresh e a1" .
  from Suc.IH [OF this] a1 have ih:
    "fst (startCalls e n a1) = map (\<lambda>i. Awaiting i []) [Suc (tokenCalls a) ..< Suc (tokenCalls a + n)]"
    "tokenCalls (snd (startCalls e n a1)) = Suc (tokenCalls a + n)"
    "accessToken (snd (startCalls e n a1)) = accessToken a"
    by simp_all
  have u: "[tokenCalls a ..< Suc (tokenCalls a + n)]
             = tokenCalls a # [Suc (tokenCalls a) ..< Suc (tokenCalls a + n)]"
    by (simp add: upt_conv_Cons del: upt_Suc)
  have st: "startCalls e (Suc n) a
      = (Awaiting (tokenCalls a) [] # fst (startCalls e n a1), snd (startCalls e n a1))"
    using a1(1) by (simp add: split_beta)
  show ?case
    unfolding st using ih u by (simp del: upt_Suc)
qed

text \<open>
  C2, as amended. With credentials configured and the token absent or expired, \<open>n\<close>
  calls of \<open>getAccessToken\<close> made before any response has arrived issue \<open>n\<close> requests to
  the token endpoint: the \<open>i\<close>-th call awaits its own request, and none shares another
  call's pending refresh.
\<close>

theorem concurrent_calls_each_refresh:
  assumes "hasCredentials (config e)" and "needsRefresh e a"
  shows "fst (startCalls e n a) = map (\<lambda>i. Awaiting i []) [tokenCalls a ..< tokenCalls a + n] \<and>
         tokenCalls (snd (startCalls e n a)) = tokenCalls a + n \<and>
         accessToken (snd (startCalls e n a)) = accessToken a"
  using assms by (rule startCalls_each_fetch)

text \<open>The amended C2 for three calls on a client without a token.\<close>

theorem concurrent_calls_each_refresh_witness:
  "fst (startCalls (exampleEnv goodToken) 3 freshClient) = [Awaiting 0 [], Awaiting 1 [], Awaiting 2 []] \<and>
   tokenCalls (snd (startCalls (exampleEnv goodToken) 3 freshClient)) = 3"
proof -
  have c: "hasCredentials (config (exampleEnv goodToken))"
    by (simp add: exampleEnv_def exampleConfig_def hasCredentials_def str_def)
  have n: "needsRefresh (exampleEnv goodToken) freshClient"
    by (simp add: needsRefresh_def freshClient_def)
  from concurrent_calls_each_refresh [OF c n, of 3] show ?thesis
    by (simp add: freshClient_def upt_rec)
qed

text \<open>
  C2 as stated fails: two concurrent calls on a client without a token issue two
  requests to the token endpoint, numbered 0 and 1, each call awaiting its own.
\<close>

theorem two_concurrent_calls_two_fetches:
  "startCalls (exampleEnv goodToken) 2 freshClient
     = ([Awaiting 0 [], Awaiting 1 []], freshClient\<lparr>tokenCalls := 2\<rparr>)"
  by (simp add: numeral_2_eq_2 getAccessToken_start_def refresh_start_def freshClient_def
        exampleEnv_def exampleConfig_def hasCredentials_def str_def)

text \<open>The first of the two calls, once its response is delivered, stores and returns the
  token; the second request stays issued.\<close>

lemma two_concurrent_calls_completed:
  "complete 1 (exampleEnv goodToken) (Awaiting 0 [], freshClient\<lparr>tokenCalls := 2\<rparr>)
     = Some (Inr (str ''tok''),
         \<lparr>accessToken = Some \<lparr>access_token = str ''tok'', expires_in = 7200,
                                expires_at = 1700006900000\<rparr>,
          tokenCalls = 2, sendCalls = 0, ticks = 1\<rparr>)"
  by (simp add: getAccessToken_resume_def storeToken_def now_def freshClient_def
        exampleEnv_def goodToken_def str_def)

end
